theory Spec2Isabelle
  imports Complex_Main "HOL-Library.Word"
begin

section \<open>The atlas renderer of \<^verbatim>\<open>src/renderer/atlas/AtlasEngine.r.cpp\<close>\<close>

text \<open>
  A shallow embedding of the render half of the atlas engine: \<^verbatim>\<open>AtlasEngine::Present\<close> and
  the helpers it calls. The engine's consumer-side fields (\<^verbatim>\<open>_r\<close>) are a record, every
  call into Direct3D, Direct2D, DirectWrite or WIC is an event appended to a trace, and the
  outcome of every call that is wrapped in \<^verbatim>\<open>THROW_IF_FAILED\<close> is read from the platform.
  Exceptions are values: a step returns how it ended together with the state it left.
\<close>

subsection \<open>Machine integers\<close>

text \<open>
  \<^verbatim>\<open>u16\<close> fields are 16-bit words. The \<^verbatim>\<open>u32\<close>/\<^verbatim>\<open>UINT\<close> locals are natural numbers with
  the wrap-around of unsigned 32-bit arithmetic written out by \<open>u32\<close>.
\<close>

type_synonym u16 = "16 word"
type_synonym u16x2 = "u16 \<times> u16"
type_synonym HRESULT = "32 word"

definition u32 :: "nat \<Rightarrow> nat" where
  "u32 n = n mod 2 ^ 32"

text \<open>\<^verbatim>\<open>FAILED(hr)\<close> is \<^verbatim>\<open>hr < 0\<close> on the signed 32-bit \<^verbatim>\<open>HRESULT\<close>.\<close>

definition FAILED :: "HRESULT \<Rightarrow> bool" where
  "FAILED hr = (sint hr < 0)"

definition S_OK :: HRESULT where
  "S_OK = 0"

text \<open>\<^verbatim>\<open>D3D11_COPY_NO_OVERWRITE\<close> of the \<^verbatim>\<open>D3D11_COPY_FLAGS\<close> enumeration (d3d11_1.h).\<close>

definition D3D11_COPY_NO_OVERWRITE :: nat where
  "D3D11_COPY_NO_OVERWRITE = 1"

text \<open>
  \<^verbatim>\<open>_BitScanReverse(&index, mask)\<close> stores the position of the highest set bit of a nonzero
  mask and leaves \<^verbatim>\<open>index\<close> untouched (here: uninitialised) when the mask is zero.
\<close>

fun msb_index :: "nat \<Rightarrow> nat" where
  "msb_index n = (if n \<le> 1 then 0 else Suc (msb_index (n div 2)))"

declare msb_index.simps [simp del]

definition BitScanReverse :: "nat \<Rightarrow> nat option" where
  "BitScanReverse v = (if v = 0 then None else Some (msb_index v))"

text \<open>\<^verbatim>\<open>u32{ 1 } << n\<close>: shifting a 32-bit value by 32 or more is undefined.\<close>

definition shl1_u32 :: "nat \<Rightarrow> nat option" where
  "shl1_u32 n = (if n < 32 then Some (2 ^ n) else None)"

subsection \<open>Data\<close>

datatype RenderInvalidations = Cursor | ConstBuffer

datatype D2D1_TEXT_ANTIALIAS_MODE =
  D2D1_TEXT_ANTIALIAS_MODE_DEFAULT
  | D2D1_TEXT_ANTIALIAS_MODE_CLEARTYPE
  | D2D1_TEXT_ANTIALIAS_MODE_GRAYSCALE
  | D2D1_TEXT_ANTIALIAS_MODE_ALIASED

datatype D2D1_DRAW_TEXT_OPTIONS =
  D2D1_DRAW_TEXT_OPTIONS_NONE
  | D2D1_DRAW_TEXT_OPTIONS_ENABLE_COLOR_FONT

text \<open>
  Modelled from the spec: the \<^verbatim>\<open>CursorType\<close> enumeration is declared outside the sources at
  hand. The five styles that \<^verbatim>\<open>_drawCursor\<close> names are its case labels; \<open>FullBox\<close> stands
  for every value that falls to \<^verbatim>\<open>default\<close> (the spec's full-cell block).
\<close>

datatype CursorType = Legacy | VerticalBar | Underscore | EmptyBox | FullBox | DoubleUnderscore

datatype CellFlags = ColoredGlyph | OtherCellFlag nat

record AtlasKeyAttributes =
  cellCount :: u16
  bold :: bool
  italic :: bool

record AtlasKey =
  attributes :: AtlasKeyAttributes
  charCount :: u16
  chars :: "u16 list"

record AtlasValue =
  flags :: "CellFlags set"
  coords :: "u16x2 list"

record AtlasQueueItem =
  item_key :: AtlasKey
  item_value :: AtlasValue

record CachedCursorOptions =
  cursorType :: CursorType
  heightPercentage :: nat

subsection \<open>Calls into the graphics and text backends\<close>

datatype resource = AtlasBuffer | NewAtlasBuffer | AtlasScratchpad

text \<open>\<^verbatim>\<open>D3D11_BOX\<close>: left, top, front, right, bottom, back.\<close>

datatype D3D11_BOX = D3D11_BOX nat nat nat nat nat nat

text \<open>\<^verbatim>\<open>WICRect\<close>: X, Y, Width, Height.\<close>

datatype WICRect = WICRect nat nat nat nat

text \<open>\<^verbatim>\<open>D2D1_RECT_F\<close>: left, top, right, bottom, over the float type \<open>'f\<close>.\<close>

datatype 'f D2D1_RECT_F = D2D1_RECT_F 'f 'f 'f 'f

text \<open>
  One constructor per backend call. \<open>CopySubresourceRegion1\<close> carries destination,
  DstX, DstY, DstZ, source, source box and CopyFlags; \<open>UpdateSubresource1\<close> destination,
  destination box and CopyFlags; \<open>DrawTextLayout\<close> the text antialiasing mode the render
  target is in when the call is made, and the draw options; \<open>DrawRectangle\<close> the
  rectangle and the stroke width. \<open>StateCall\<close> is a \<^verbatim>\<open>void\<close> call that only sets pipeline
  state, by name.
\<close>

datatype 'f call =
  CreateTexture2D nat nat
  | CreateShaderResourceView
  | CopySubresourceRegion1 resource nat nat nat resource D3D11_BOX nat
  | UpdateSubresource1 resource D3D11_BOX nat
  | CreateBitmap nat nat
  | CreateWicBitmapRenderTarget
  | CreateDxgiSurfaceRenderTarget
  | DWrite_GetRenderParams
  | SetAntialiasMode_ALIASED
  | SetTextAntialiasMode D2D1_TEXT_ANTIALIAS_MODE
  | SetTextRenderingParams
  | CreateSolidColorBrush
  | CreateTextLayout "u16 list" u16 bool bool 'f 'f
  | SetTypography
  | BeginDraw
  | Clear
  | DrawTextLayout D2D1_TEXT_ANTIALIAS_MODE D2D1_DRAW_TEXT_OPTIONS
  | FillRectangle "'f D2D1_RECT_F"
  | DrawRectangle "'f D2D1_RECT_F" 'f
  | EndDraw
  | BitmapLock WICRect
  | GetStride
  | GetDataPointer
  | ConstantBufferMap
  | ConstantBufferUnmap
  | CellBufferMap
  | CellBufferUnmap
  | StateCall string
  | Draw nat nat
  | CommandAllocatorReset
  | CommandListReset
  | DrawInstanced nat nat nat nat
  | CommandListClose
  | SwapChainPresent nat nat

subsection \<open>The platform and the engine state\<close>

text \<open>
  What the file takes from outside itself. \<open>gpu_result n\<close> is the \<^verbatim>\<open>HRESULT\<close> of the
  checked call that is issued when \<open>n\<close> calls have been recorded. The macro
  \<^verbatim>\<open>ATLAS_D2D_SOFTWARE_RENDERING\<close>, the default argument of \<^verbatim>\<open>_copyScratchpadTile\<close>'s
  \<^verbatim>\<open>copyFlags\<close> parameter and \<^verbatim>\<open>_handleException\<close> are declared in files that are not at
  hand and are parameters. Single-precision arithmetic is a parameter as well: no
  property below depends on how it rounds.
\<close>

record 'f platform =
  gpu_result :: "nat \<Rightarrow> HRESULT"
  ATLAS_D2D_SOFTWARE_RENDERING :: bool
  copyFlags_default :: nat
  handleException :: "HRESULT \<Rightarrow> HRESULT"
  f_of_int :: "int \<Rightarrow> 'f"
  f_sub :: "'f \<Rightarrow> 'f \<Rightarrow> 'f"
  f_mul :: "'f \<Rightarrow> 'f \<Rightarrow> 'f"
  f_div :: "'f \<Rightarrow> 'f \<Rightarrow> 'f"
  f_less :: "'f \<Rightarrow> 'f \<Rightarrow> bool"

text \<open>
  The fields of \<^verbatim>\<open>_r\<close> that the file reads or writes, \<^verbatim>\<open>_api.realizedAntialiasingMode\<close>,
  and the trace of backend calls. \<open>d2dRenderTarget\<close> is \<open>None\<close> for a null pointer and
  otherwise holds the text antialiasing mode the render target is in.
\<close>

record 'f engine =
  atlasPosition :: u16x2
  atlasSizeInPixel :: u16x2
  atlasSizeInPixelLimit :: u16x2
  cellSize :: u16x2
  cellSizeDIP :: "'f \<times> 'f"
  dpi :: u16
  invalidations :: "RenderInvalidations set"
  scratchpadCellWidth :: u16
  maxEncounteredCellCount :: u16
  glyphQueue :: "AtlasQueueItem list"
  cursorOptions :: CachedCursorOptions
  typography :: bool
  d2dRenderTarget :: "D2D1_TEXT_ANTIALIAS_MODE option"
  realizedAntialiasingMode :: D2D1_TEXT_ANTIALIAS_MODE
  trace :: "'f call list"

subsection \<open>Steps\<close>

text \<open>
  How a piece of code ends: normally, by throwing a \<^verbatim>\<open>wil::ResultException\<close> that carries
  an \<^verbatim>\<open>HRESULT\<close>, by \<^verbatim>\<open>std::terminate\<close>, or in undefined behaviour.
\<close>

datatype status = Ok | Thrown HRESULT | Terminated | Undefined

type_synonym 'f step = "'f engine \<Rightarrow> status \<times> 'f engine"

definition emit :: "'f call \<Rightarrow> 'f step" where
  "emit c s = (Ok, s\<lparr>trace := trace s @ [c]\<rparr>)"

definition THROW_IF_FAILED :: "'f platform \<Rightarrow> 'f call \<Rightarrow> 'f step" where
  "THROW_IF_FAILED p c s =
     (let hr = gpu_result p (length (trace s)) in
      if FAILED hr then (Thrown hr, s\<lparr>trace := trace s @ [c]\<rparr>)
      else (Ok, s\<lparr>trace := trace s @ [c]\<rparr>))"

definition modify :: "('f engine \<Rightarrow> 'f engine) \<Rightarrow> 'f step" where
  "modify f s = (Ok, f s)"

definition step_if :: "bool \<Rightarrow> 'f step \<Rightarrow> 'f step" where
  "step_if b f s = (if b then f s else (Ok, s))"

text \<open>Statements in sequence: the first one that does not end normally ends the block.\<close>

definition then_step :: "'f step \<Rightarrow> 'f step \<Rightarrow> 'f step" where
  "then_step f g s = (case f s of (Ok, s') \<Rightarrow> g s' | r \<Rightarrow> r)"

fun steps :: "'f step list \<Rightarrow> 'f step" where
  "steps [] s = (Ok, s)"
| "steps (f # fs) s = then_step f (steps fs) s"

text \<open>An exception that leaves a \<^verbatim>\<open>noexcept\<close> function calls \<^verbatim>\<open>std::terminate\<close>.\<close>

definition noexcept :: "'f step \<Rightarrow> 'f step" where
  "noexcept f s = (case f s of (Thrown hr, s') \<Rightarrow> (Terminated, s') | r \<Rightarrow> r)"

text \<open>A member call through \<^verbatim>\<open>_r.d2dRenderTarget\<close>, which must not be null.\<close>

definition on_target :: "'f call \<Rightarrow> 'f step" where
  "on_target c s = (case d2dRenderTarget s of None \<Rightarrow> (Undefined, s) | Some m \<Rightarrow> emit c s)"

definition try_on_target :: "'f platform \<Rightarrow> 'f call \<Rightarrow> 'f step" where
  "try_on_target p c s =
     (case d2dRenderTarget s of None \<Rightarrow> (Undefined, s) | Some m \<Rightarrow> THROW_IF_FAILED p c s)"

definition setTextAntialiasMode :: "D2D1_TEXT_ANTIALIAS_MODE \<Rightarrow> 'f step" where
  "setTextAntialiasMode m s =
     (case d2dRenderTarget s of
        None \<Rightarrow> (Undefined, s)
      | Some m0 \<Rightarrow> emit (SetTextAntialiasMode m) (s\<lparr>d2dRenderTarget := Some m\<rparr>))"

definition drawTextLayout :: "D2D1_DRAW_TEXT_OPTIONS \<Rightarrow> 'f step" where
  "drawTextLayout opts s =
     (case d2dRenderTarget s of
        None \<Rightarrow> (Undefined, s)
      | Some m \<Rightarrow> emit (DrawTextLayout m opts) s)"

subsection \<open>\<^verbatim>\<open>_adjustAtlasSize\<close>\<close>

text \<open>
  The locals of \<^verbatim>\<open>_adjustAtlasSize\<close>, each under its own name. A \<^verbatim>\<open>u16x2\<close> is a pair:
  \<open>fst\<close> is \<^verbatim>\<open>x\<close> and \<open>snd\<close> is \<^verbatim>\<open>y\<close>. All of them are \<^verbatim>\<open>u32\<close>.
\<close>

definition limitX :: "'f engine \<Rightarrow> nat" where
  "limitX s = unat (fst (atlasSizeInPixelLimit s))"

definition limitY :: "'f engine \<Rightarrow> nat" where
  "limitY s = unat (snd (atlasSizeInPixelLimit s))"

definition posX :: "'f engine \<Rightarrow> nat" where
  "posX s = unat (fst (atlasPosition s))"

definition posY :: "'f engine \<Rightarrow> nat" where
  "posY s = unat (snd (atlasPosition s))"

definition cellX :: "'f engine \<Rightarrow> nat" where
  "cellX s = unat (fst (cellSize s))"

definition cellY :: "'f engine \<Rightarrow> nat" where
  "cellY s = unat (snd (cellSize s))"

definition perCellArea :: "'f engine \<Rightarrow> nat" where
  "perCellArea s = u32 (cellX s * cellY s)"

definition currentArea :: "'f engine \<Rightarrow> nat" where
  "currentArea s = u32 (u32 (posY s * limitX s) + u32 (posX s * cellY s))"

definition minArea :: "'f engine \<Rightarrow> nat" where
  "minArea s = u32 (64 * perCellArea s)"

text \<open>\<^verbatim>\<open>newArea\<close> as first assigned, and as reassigned after the bit scan.\<close>

definition newArea_max :: "'f engine \<Rightarrow> nat" where
  "newArea_max s = max (minArea s) (currentArea s)"

definition newArea :: "'f engine \<Rightarrow> nat option" where
  "newArea s =
     (case BitScanReverse (newArea_max s) of
        None \<Rightarrow> None
      | Some index \<Rightarrow> shl1_u32 (index + 1))"

definition pixelPerRow :: "'f engine \<Rightarrow> nat" where
  "pixelPerRow s = u32 (limitX s * cellY s)"

text \<open>Unsigned 32-bit subtraction of two 32-bit values.\<close>

definition u32_sub :: "nat \<Rightarrow> nat \<Rightarrow> nat" where
  "u32_sub a b = (a + 2 ^ 32 - b) mod 2 ^ 32"

definition wantedHeight :: "'f engine \<Rightarrow> nat \<Rightarrow> nat" where
  "wantedHeight s area =
     u32 (u32_sub (u32 (area + pixelPerRow s)) 1 div pixelPerRow s * cellY s)"

definition wantedWidth :: "'f engine \<Rightarrow> nat \<Rightarrow> nat" where
  "wantedWidth s area =
     (if wantedHeight s area \<noteq> cellY s then limitX s
      else u32 (area div perCellArea s * cellX s))"

text \<open>
  \<^verbatim>\<open>width\<close> and \<^verbatim>\<open>height\<close>, narrowed to \<^verbatim>\<open>u16\<close>. There is none when the bit scan reads
  zero, when the shift is by 32, or when a division is by zero.
\<close>

definition atlasSize_wanted :: "'f engine \<Rightarrow> u16x2 option" where
  "atlasSize_wanted s =
     (case newArea s of
        None \<Rightarrow> None
      | Some area \<Rightarrow>
          if pixelPerRow s = 0 then None
          else if wantedHeight s area = cellY s \<and> perCellArea s = 0 then None
          else Some (word_of_nat (min (limitX s) (wantedWidth s area)),
                     word_of_nat (min (limitY s) (wantedHeight s area))))"

text \<open>The early return of \<^verbatim>\<open>_adjustAtlasSize\<close>: the fill cursor is inside the texture.\<close>

definition atlas_has_room :: "'f engine \<Rightarrow> bool" where
  "atlas_has_room s =
     (snd (atlasPosition s) < snd (atlasSizeInPixel s)
      \<and> fst (atlasPosition s) < fst (atlasSizeInPixel s))"

text \<open>
  The two \<^verbatim>\<open>assert\<close>s on \<^verbatim>\<open>width\<close> and \<^verbatim>\<open>height\<close> are compiled out of a release build and
  are not steps. \<^verbatim>\<open>_setShaderResources\<close> has an empty body.
\<close>

definition adjustAtlasSize :: "'f platform \<Rightarrow> 'f step" where
  "adjustAtlasSize p s =
     (if atlas_has_room s then (Ok, s)
      else case atlasSize_wanted s of
        None \<Rightarrow> (Undefined, s)
      | Some (width, height) \<Rightarrow>
          let copyFromExisting = (atlasSizeInPixel s \<noteq> (0, 0)) in
          steps
            [THROW_IF_FAILED p (CreateTexture2D (unat width) (unat height)),
             THROW_IF_FAILED p CreateShaderResourceView,
             step_if copyFromExisting
               (emit (CopySubresourceRegion1 NewAtlasBuffer 0 0 0 AtlasBuffer
                  (D3D11_BOX 0 0 0
                     (unat (fst (atlasSizeInPixel s))) (unat (snd (atlasSizeInPixel s))) 1)
                  D3D11_COPY_NO_OVERWRITE)),
             modify (\<lambda>s'. s'\<lparr>atlasSizeInPixel := (width, height)\<rparr>),
             modify (\<lambda>s'. s'\<lparr>invalidations :=
               (if \<not> copyFromExisting then insert Cursor (invalidations s')
                else invalidations s')\<rparr>)] s)"

subsection \<open>\<^verbatim>\<open>_reserveScratchpadSize\<close>\<close>

text \<open>
  \<^verbatim>\<open>newWidth\<close>: \<^verbatim>\<open>std::max<UINT>(std::max<UINT>(2, minWidth), w + (w >> 1))\<close> for the recorded
  width \<^verbatim>\<open>w\<close>. The \<^verbatim>\<open>u16\<close> operands are promoted to \<^verbatim>\<open>int\<close>, so the sum does not wrap.
\<close>

definition newWidth :: "'f engine \<Rightarrow> u16 \<Rightarrow> nat" where
  "newWidth s minWidth =
     max (max 2 (unat minWidth))
         (unat (scratchpadCellWidth s) + unat (scratchpadCellWidth s) div 2)"

text \<open>
  A render target is created in Direct2D's default text antialiasing mode; the
  \<^verbatim>\<open>SetTextAntialiasMode\<close> call that follows changes it.

  Without \<^verbatim>\<open>ATLAS_D2D_SOFTWARE_RENDERING\<close> the block opens with
  \<^verbatim>\<open>_r.atlasScratchpad.query<IDXGISurface>()\<close>, two statements after
  \<^verbatim>\<open>_r.atlasScratchpad.reset()\<close> and before the texture is created: a \<^verbatim>\<open>query\<close> through
  a null \<^verbatim>\<open>wil::com_ptr\<close> dereferences it.
\<close>

definition null_dereference :: "'f step" where
  "null_dereference s = (Undefined, s)"

definition reserveScratchpadSize :: "'f platform \<Rightarrow> u16 \<Rightarrow> 'f step" where
  "reserveScratchpadSize p minWidth s =
     (if minWidth \<le> scratchpadCellWidth s then (Ok, s)
      else
        steps
          [modify (\<lambda>s'. s'\<lparr>d2dRenderTarget := None\<rparr>),
           (if ATLAS_D2D_SOFTWARE_RENDERING p then
              steps
                [THROW_IF_FAILED p (CreateBitmap (u32 (cellX s * newWidth s minWidth)) (cellY s)),
                 THROW_IF_FAILED p CreateWicBitmapRenderTarget]
            else
              steps
                [null_dereference,
                 THROW_IF_FAILED p (CreateTexture2D (u32 (cellX s * newWidth s minWidth)) (cellY s)),
                 THROW_IF_FAILED p CreateDxgiSurfaceRenderTarget]),
           modify (\<lambda>s'. s'\<lparr>d2dRenderTarget := Some D2D1_TEXT_ANTIALIAS_MODE_DEFAULT\<rparr>),
           emit DWrite_GetRenderParams,
           on_target SetAntialiasMode_ALIASED,
           setTextAntialiasMode (realizedAntialiasingMode s),
           on_target SetTextRenderingParams,
           try_on_target p CreateSolidColorBrush,
           modify (\<lambda>s'. s'\<lparr>scratchpadCellWidth := maxEncounteredCellCount s'\<rparr>),
           modify (\<lambda>s'. s'\<lparr>invalidations := insert ConstBuffer (invalidations s')\<rparr>)] s)"

subsection \<open>\<^verbatim>\<open>_copyScratchpadTile\<close>\<close>

definition copyScratchpadTile :: "'f platform \<Rightarrow> nat \<Rightarrow> u16x2 \<Rightarrow> nat \<Rightarrow> 'f step" where
  "copyScratchpadTile p scratchpadIndex target copyFlags s =
     (if ATLAS_D2D_SOFTWARE_RENDERING p then
        steps
          [THROW_IF_FAILED p
             (BitmapLock (WICRect (u32 (scratchpadIndex * cellX s)) 0 (cellX s) (cellY s))),
           THROW_IF_FAILED p GetStride,
           THROW_IF_FAILED p GetDataPointer,
           emit (UpdateSubresource1 AtlasBuffer
             (D3D11_BOX (unat (fst target)) (unat (snd target)) 0
                (unat (fst target) + cellX s) (unat (snd target) + cellY s) 1)
             copyFlags)] s
      else
        emit (CopySubresourceRegion1 AtlasBuffer (unat (fst target)) (unat (snd target)) 0
          AtlasScratchpad
          (D3D11_BOX (u32 (scratchpadIndex * cellX s)) 0 0
             (u32 (u32 (scratchpadIndex * cellX s) + cellX s)) (cellY s) 1)
          copyFlags) s)"

subsection \<open>\<^verbatim>\<open>_drawGlyph\<close> and \<^verbatim>\<open>_processGlyphQueue\<close>\<close>

text \<open>
  The loop over the cells of a glyph. \<^verbatim>\<open>coords\<close> holds one entry per cell of the key;
  reading past its end is undefined. The third argument of \<^verbatim>\<open>_copyScratchpadTile\<close> is the
  literal \<^verbatim>\<open>0\<close> of the source.
\<close>

definition copyGlyphTile :: "'f platform \<Rightarrow> u16x2 list \<Rightarrow> nat \<Rightarrow> 'f step" where
  "copyGlyphTile p cs i s =
     (if i < length cs then copyScratchpadTile p i (cs ! i) 0 s else (Undefined, s))"

text \<open>
  The ad hoc timing log that \<^verbatim>\<open>_drawGlyph\<close> writes to a file is not modelled.
  \<^verbatim>\<open>SetTypography\<close> returns an \<^verbatim>\<open>HRESULT\<close> that the source drops.
\<close>

definition drawGlyph :: "'f platform \<Rightarrow> AtlasQueueItem \<Rightarrow> 'f step" where
  "drawGlyph p item s =
     (let k = item_key item;
          v = item_value item;
          charsLength = charCount k;
          cells = unat (cellCount (attributes k));
          coloredGlyph = (ColoredGlyph \<in> flags v);
          options = (if coloredGlyph then D2D1_DRAW_TEXT_OPTIONS_ENABLE_COLOR_FONT
                     else D2D1_DRAW_TEXT_OPTIONS_NONE)
      in
      steps
        ([THROW_IF_FAILED p
            (CreateTextLayout (chars k) charsLength (bold (attributes k)) (italic (attributes k))
               (f_mul p (f_of_int p (int cells)) (fst (cellSizeDIP s))) (snd (cellSizeDIP s))),
          step_if (typography s) (emit SetTypography),
          step_if (realizedAntialiasingMode s = D2D1_TEXT_ANTIALIAS_MODE_CLEARTYPE)
            (setTextAntialiasMode
               (if coloredGlyph then D2D1_TEXT_ANTIALIAS_MODE_GRAYSCALE
                else D2D1_TEXT_ANTIALIAS_MODE_CLEARTYPE)),
          on_target BeginDraw,
          on_target Clear,
          drawTextLayout options,
          try_on_target p EndDraw]
         @ map (copyGlyphTile p (coords v)) [0..<cells]) s)"

fun drawGlyphs :: "'f platform \<Rightarrow> AtlasQueueItem list \<Rightarrow> 'f step" where
  "drawGlyphs p [] s = (Ok, s)"
| "drawGlyphs p (item # items) s = then_step (drawGlyph p item) (drawGlyphs p items) s"

definition processGlyphQueue :: "'f platform \<Rightarrow> 'f step" where
  "processGlyphQueue p s =
     (if glyphQueue s = [] then (Ok, s)
      else steps [drawGlyphs p (glyphQueue s), modify (\<lambda>s'. s'\<lparr>glyphQueue := []\<rparr>)] s)"

subsection \<open>\<^verbatim>\<open>_drawCursor\<close>\<close>

definition USER_DEFAULT_SCREEN_DPI :: int where
  "USER_DEFAULT_SCREEN_DPI = 96"

text \<open>\<^verbatim>\<open>std::max(a, b)\<close> is \<^verbatim>\<open>(a < b) ? b : a\<close>.\<close>

definition f_max :: "'f platform \<Rightarrow> 'f \<Rightarrow> 'f \<Rightarrow> 'f" where
  "f_max p a b = (if f_less p a b then b else a)"

definition lineWidth :: "'f platform \<Rightarrow> 'f engine \<Rightarrow> 'f" where
  "lineWidth p s =
     f_max p (f_of_int p 1)
       (f_div p
          (f_of_int p
             ((uint (dpi s) + USER_DEFAULT_SCREEN_DPI div 2) div USER_DEFAULT_SCREEN_DPI
                * USER_DEFAULT_SCREEN_DPI))
          (f_of_int p (uint (dpi s))))"

text \<open>The rectangle after the \<^verbatim>\<open>switch\<close> on the cursor type.\<close>

definition cursorRect :: "'f platform \<Rightarrow> 'f engine \<Rightarrow> 'f D2D1_RECT_F" where
  "cursorRect p s =
     (let w = fst (cellSizeDIP s); h = snd (cellSizeDIP s); zero = f_of_int p 0 in
      case cursorType (cursorOptions s) of
        Legacy \<Rightarrow>
          D2D1_RECT_F zero
            (f_div p
               (f_mul p h (f_of_int p (100 - int (heightPercentage (cursorOptions s)))))
               (f_of_int p 100))
            w h
      | VerticalBar \<Rightarrow> D2D1_RECT_F zero zero (lineWidth p s) h
      | EmptyBox \<Rightarrow>
          (let halfWidth = f_div p (lineWidth p s) (f_of_int p 2) in
           D2D1_RECT_F halfWidth halfWidth (f_sub p w halfWidth) (f_sub p h halfWidth))
      | Underscore \<Rightarrow> D2D1_RECT_F zero (f_sub p h (lineWidth p s)) w h
      | DoubleUnderscore \<Rightarrow> D2D1_RECT_F zero (f_sub p h (lineWidth p s)) w h
      | FullBox \<Rightarrow> D2D1_RECT_F zero zero w h)"

text \<open>\<^verbatim>\<open>rect.top -= 2.0f; rect.bottom -= 2.0f;\<close>\<close>

fun raise_by_two :: "'f platform \<Rightarrow> 'f D2D1_RECT_F \<Rightarrow> 'f D2D1_RECT_F" where
  "raise_by_two p (D2D1_RECT_F l t r b) =
     D2D1_RECT_F l (f_sub p t (f_of_int p 2)) r (f_sub p b (f_of_int p 2))"

text \<open>The target \<^verbatim>\<open>{}\<close> of the tile copy is the \<^verbatim>\<open>u16x2\<close> of two zeros.\<close>

definition drawCursor :: "'f platform \<Rightarrow> 'f step" where
  "drawCursor p =
     steps
       [reserveScratchpadSize p 1,
        on_target BeginDraw,
        on_target Clear,
        (\<lambda>s. if cursorType (cursorOptions s) = EmptyBox
              then on_target (DrawRectangle (cursorRect p s) (lineWidth p s)) s
              else on_target (FillRectangle (cursorRect p s)) s),
        (\<lambda>s. step_if (cursorType (cursorOptions s) = DoubleUnderscore)
                (on_target (FillRectangle (raise_by_two p (cursorRect p s)))) s),
        try_on_target p EndDraw,
        copyScratchpadTile p 0 (0, 0) (copyFlags_default p)]"

subsection \<open>\<^verbatim>\<open>_updateConstantBuffer\<close> and \<^verbatim>\<open>Present\<close>\<close>

text \<open>
  \<^verbatim>\<open>_updateConstantBuffer\<close> is declared \<^verbatim>\<open>noexcept\<close> and checks its \<^verbatim>\<open>Map\<close> call with
  \<^verbatim>\<open>THROW_IF_FAILED\<close>. The contents it copies into the buffer play no part below.
\<close>

definition updateConstantBuffer :: "'f platform \<Rightarrow> 'f step" where
  "updateConstantBuffer p =
     noexcept (steps [THROW_IF_FAILED p ConstantBufferMap, emit ConstantBufferUnmap])"

text \<open>How a call of \<^verbatim>\<open>Present\<close> ends.\<close>

datatype outcome = Returned HRESULT | ProcessTerminated | UndefinedBehaviour

text \<open>
  The body of \<^verbatim>\<open>Present\<close>, the function-try-block left aside. The \<^verbatim>\<open>assert\<close> on the frame
  latency wait is compiled out of a release build.
\<close>

definition Present_body :: "'f platform \<Rightarrow> 'f step" where
  "Present_body p =
     steps
       [adjustAtlasSize p,
        (\<lambda>s. reserveScratchpadSize p (maxEncounteredCellCount s) s),
        processGlyphQueue p,
        (\<lambda>s. step_if (Cursor \<in> invalidations s)
                (steps [drawCursor p,
                        modify (\<lambda>s'. s'\<lparr>invalidations := invalidations s' - {Cursor}\<rparr>)]) s),
        (\<lambda>s. step_if (ConstBuffer \<in> invalidations s)
                (steps [updateConstantBuffer p,
                        modify (\<lambda>s'. s'\<lparr>invalidations := invalidations s' - {ConstBuffer}\<rparr>)]) s),
        THROW_IF_FAILED p CellBufferMap,
        emit CellBufferUnmap,
        emit (StateCall ''VSSetShader''),
        emit (StateCall ''PSSetShader''),
        emit (StateCall ''IASetVertexBuffers''),
        emit (StateCall ''IASetIndexBuffer''),
        emit (StateCall ''IASetPrimitiveTopology''),
        emit (StateCall ''PSSetConstantBuffers''),
        emit (StateCall ''PSSetShaderResources''),
        emit (StateCall ''OMSetRenderTargets''),
        emit (Draw 3 0),
        THROW_IF_FAILED p CommandAllocatorReset,
        THROW_IF_FAILED p CommandListReset,
        emit (StateCall ''ResourceBarrier''),
        emit (StateCall ''SetGraphicsRootSignature''),
        emit (StateCall ''IASetVertexBuffers''),
        emit (StateCall ''IASetIndexBuffer''),
        emit (StateCall ''IASetPrimitiveTopology''),
        emit (StateCall ''RSSetViewports''),
        emit (StateCall ''OMSetRenderTargets''),
        emit (DrawInstanced 3 1 0 0),
        emit (StateCall ''ResourceBarrier''),
        THROW_IF_FAILED p CommandListClose,
        THROW_IF_FAILED p (SwapChainPresent 1 0)]"

text \<open>
  \<^verbatim>\<open>Present\<close>: \<^verbatim>\<open>S_OK\<close> when the body ends normally; an exception is caught and turned into
  the \<^verbatim>\<open>HRESULT\<close> of \<^verbatim>\<open>_handleException\<close>.
\<close>

definition Present :: "'f platform \<Rightarrow> 'f engine \<Rightarrow> outcome \<times> 'f engine" where
  "Present p s =
     (case Present_body p s of
        (Ok, s') \<Rightarrow> (Returned S_OK, s')
      | (Thrown hr, s') \<Rightarrow> (Returned (handleException p hr), s')
      | (Terminated, s') \<Rightarrow> (ProcessTerminated, s')
      | (Undefined, s') \<Rightarrow> (UndefinedBehaviour, s'))"

section \<open>The vocabulary of the properties\<close>

subsection \<open>The growth formula as the specification words it\<close>

text \<open>
  Rounding up to a power of two: the least power of two that is not below the argument.
  Next to it, the least power of two strictly above the argument.
\<close>

fun roundUpToPowerOfTwo :: "nat \<Rightarrow> nat" where
  "roundUpToPowerOfTwo n = (if n \<le> 1 then 1 else 2 * roundUpToPowerOfTwo ((n + 1) div 2))"

declare roundUpToPowerOfTwo.simps [simp del]

fun powerOfTwoAbove :: "nat \<Rightarrow> nat" where
  "powerOfTwoAbove n = (if n = 0 then 1 else 2 * powerOfTwoAbove (n div 2))"

declare powerOfTwoAbove.simps [simp del]

definition ceil_div :: "nat \<Rightarrow> nat \<Rightarrow> nat" where
  "ceil_div a b = a div b + (if b dvd a then 0 else 1)"

text \<open>
  \<open>max(64 * cellArea, currentArea)\<close> over the natural numbers: the pixels of 64 cells, and
  the pixels already consumed (the full rows above the fill cursor plus the partial row).
\<close>

definition area_needed :: "'f engine \<Rightarrow> nat" where
  "area_needed s = max (64 * (cellX s * cellY s)) (posY s * limitX s + posX s * cellY s)"

text \<open>
  Steps 2 to 5 of the specification's \<open>ensureCapacity\<close>, with the rounding left open:
  width and height of the texture to create.
\<close>

definition stated_atlas_size :: "(nat \<Rightarrow> nat) \<Rightarrow> 'f engine \<Rightarrow> nat \<times> nat" where
  "stated_atlas_size rounding s =
     (let area = rounding (area_needed s);
          height = ceil_div area (limitX s * cellY s) * cellY s;
          width = (if cellY s < height then limitX s
                   else area div (cellX s * cellY s) * cellX s)
      in (min (limitX s) width, min (limitY s) height))"

subsection \<open>Calls and what a step may do\<close>

text \<open>The calls that \<open>f\<close> records from state \<open>s\<close> on.\<close>

definition calls_of :: "('f engine \<Rightarrow> 'a \<times> 'f engine) \<Rightarrow> 'f engine \<Rightarrow> 'f call list" where
  "calls_of f s = drop (length (trace s)) (trace (snd (f s)))"

text \<open>
  \<open>valid P f Q R\<close>: from a state in \<open>P\<close>, the step \<open>f\<close> only appends calls to the trace, each
  of them in \<open>Q\<close>, and when it ends normally it ends in \<open>R\<close>.
\<close>

definition valid ::
  "('f engine \<Rightarrow> bool) \<Rightarrow> 'f step \<Rightarrow> ('f call \<Rightarrow> bool) \<Rightarrow> ('f engine \<Rightarrow> bool) \<Rightarrow> bool" where
  "valid P f Q R =
     (\<forall>s. P s \<longrightarrow>
        (\<exists>evs. trace (snd (f s)) = trace s @ evs \<and> (\<forall>e \<in> set evs. Q e))
        \<and> (fst (f s) = Ok \<longrightarrow> R (snd (f s))))"

text \<open>An assertion that does not read the trace.\<close>

definition trace_free :: "('f engine \<Rightarrow> bool) \<Rightarrow> bool" where
  "trace_free I = (\<forall>s t. I (s\<lparr>trace := t\<rparr>) = I s)"

text \<open>The calls of \<^verbatim>\<open>_copyScratchpadTile\<close> for a target and copy flags.\<close>

definition tile_copy_call :: "u16x2 \<Rightarrow> nat \<Rightarrow> 'f call \<Rightarrow> bool" where
  "tile_copy_call target copyFlags c =
     (case c of
        BitmapLock r \<Rightarrow> True
      | GetStride \<Rightarrow> True
      | GetDataPointer \<Rightarrow> True
      | UpdateSubresource1 dst (D3D11_BOX l t f r b bk) fl \<Rightarrow>
          dst = AtlasBuffer \<and> l = unat (fst target) \<and> t = unat (snd target) \<and> fl = copyFlags
      | CopySubresourceRegion1 dst dx dy dz src box fl \<Rightarrow>
          dst = AtlasBuffer \<and> dx = unat (fst target) \<and> dy = unat (snd target)
          \<and> src = AtlasScratchpad \<and> fl = copyFlags
      | _ \<Rightarrow> False)"

text \<open>
  Where a call writes a scratchpad tile into the atlas: the pixel coordinate of the
  destination, for the two calls that \<^verbatim>\<open>_copyScratchpadTile\<close> uses.
\<close>

fun atlas_tile_target :: "'f call \<Rightarrow> (nat \<times> nat) option" where
  "atlas_tile_target (UpdateSubresource1 AtlasBuffer (D3D11_BOX l t f r b bk) fl) = Some (l, t)"
| "atlas_tile_target (CopySubresourceRegion1 AtlasBuffer dx dy dz AtlasScratchpad box fl) = Some (dx, dy)"
| "atlas_tile_target c = None"

text \<open>The calls that create and set up the scratchpad.\<close>

fun scratchpad_setup_call :: "'f call \<Rightarrow> bool" where
  "scratchpad_setup_call (CreateBitmap w h) = True"
| "scratchpad_setup_call CreateWicBitmapRenderTarget = True"
| "scratchpad_setup_call (CreateTexture2D w h) = True"
| "scratchpad_setup_call CreateDxgiSurfaceRenderTarget = True"
| "scratchpad_setup_call DWrite_GetRenderParams = True"
| "scratchpad_setup_call SetAntialiasMode_ALIASED = True"
| "scratchpad_setup_call (SetTextAntialiasMode m) = True"
| "scratchpad_setup_call SetTextRenderingParams = True"
| "scratchpad_setup_call CreateSolidColorBrush = True"
| "scratchpad_setup_call c = False"

text \<open>The atlas coordinates that the calls of a list write scratchpad tiles to, in order.\<close>

definition tile_targets :: "'f call list \<Rightarrow> (nat \<times> nat) list" where
  "tile_targets cs =
     concat (map (\<lambda>c. case atlas_tile_target c of None \<Rightarrow> [] | Some xy \<Rightarrow> [xy]) cs)"


text \<open>The calls with which \<^verbatim>\<open>_drawGlyph\<close> lays out and rasterizes a glyph.\<close>

fun glyph_draw_call :: "'f call \<Rightarrow> bool" where
  "glyph_draw_call (CreateTextLayout cs n b i w h) = True"
| "glyph_draw_call SetTypography = True"
| "glyph_draw_call (SetTextAntialiasMode m) = True"
| "glyph_draw_call BeginDraw = True"
| "glyph_draw_call Clear = True"
| "glyph_draw_call (DrawTextLayout m opts) = True"
| "glyph_draw_call EndDraw = True"
| "glyph_draw_call c = False"

fun text_draw_call :: "'f call \<Rightarrow> bool" where
  "text_draw_call (DrawTextLayout m opts) = True"
| "text_draw_call c = False"

fun rectangle_call :: "'f call \<Rightarrow> bool" where
  "rectangle_call (FillRectangle r) = True"
| "rectangle_call (DrawRectangle r w) = True"
| "rectangle_call c = False"

fun present_call :: "'f call \<Rightarrow> bool" where
  "present_call (SwapChainPresent a b) = True"
| "present_call c = False"

subsection \<open>Text antialiasing while the glyph queue is drained\<close>




subsection \<open>Concrete inputs\<close>

text \<open>
  A platform whose float type is the reals with exact arithmetic, with the outcomes of the
  checked calls and the rendering macro left open. \<^verbatim>\<open>_handleException\<close> hands the
  \<^verbatim>\<open>HRESULT\<close> through.
\<close>

definition real_platform :: "(nat \<Rightarrow> HRESULT) \<Rightarrow> bool \<Rightarrow> real platform" where
  "real_platform results software =
     \<lparr>gpu_result = results, ATLAS_D2D_SOFTWARE_RENDERING = software, copyFlags_default = 0,
      handleException = (\<lambda>hr. hr), f_of_int = of_int, f_sub = (-), f_mul = (*), f_div = (/),
      f_less = (<)\<rparr>"

definition all_succeed :: "nat \<Rightarrow> HRESULT" where
  "all_succeed n = S_OK"

definition E_FAIL :: HRESULT where
  "E_FAIL = 0x80004005"

definition all_fail :: "nat \<Rightarrow> HRESULT" where
  "all_fail n = E_FAIL"

text \<open>
  An engine before its first frame: 8 by 16 pixel cells at 96 DPI, a 2048 by 2048 limit, no
  atlas texture, no scratchpad, nothing queued, no flag set.
\<close>

definition fresh_engine :: "real engine" where
  "fresh_engine =
     \<lparr>atlasPosition = (0, 0), atlasSizeInPixel = (0, 0), atlasSizeInPixelLimit = (2048, 2048),
      cellSize = (8, 16), cellSizeDIP = (8, 16), dpi = 96, invalidations = {},
      scratchpadCellWidth = 0, maxEncounteredCellCount = 0, glyphQueue = [],
      cursorOptions = \<lparr>cursorType = Legacy, heightPercentage = 20\<rparr>, typography = False,
      d2dRenderTarget = None,
      realizedAntialiasingMode = D2D1_TEXT_ANTIALIAS_MODE_GRAYSCALE, trace = []\<rparr>"

text \<open>
  An engine between frames: an atlas of 1024 by 16 with the fill cursor at its second tile,
  and a scratchpad of two cells whose render target is in the configured mode.
\<close>

definition warm_engine :: "real engine" where
  "warm_engine =
     fresh_engine
       \<lparr>atlasPosition := (8, 0), atlasSizeInPixel := (1024, 16), scratchpadCellWidth := 2,
        maxEncounteredCellCount := 2,
        d2dRenderTarget := Some D2D1_TEXT_ANTIALIAS_MODE_GRAYSCALE\<rparr>"

text \<open>A queued glyph of one cell, given its flags and its atlas coordinate.\<close>

definition glyph_A :: "CellFlags set \<Rightarrow> u16x2 \<Rightarrow> AtlasQueueItem" where
  "glyph_A fl xy =
     \<lparr>item_key = \<lparr>attributes = \<lparr>cellCount = 1, bold = False, italic = False\<rparr>,
                  charCount = 1, chars = [0x41]\<rparr>,
      item_value = \<lparr>flags = fl, coords = [xy]\<rparr>\<rparr>"

text \<open>
  The same engine with 9 by 18 pixel cells, before its first frame, and after 101 tiles have
  filled the single row of the 909 by 18 texture that its first frame creates.
\<close>

definition cold_9x18 :: "real engine" where
  "cold_9x18 = fresh_engine\<lparr>cellSize := (9, 18), cellSizeDIP := (9, 18)\<rparr>"

definition full_row_9x18 :: "real engine" where
  "full_row_9x18 = cold_9x18\<lparr>atlasSizeInPixel := (909, 18), atlasPosition := (909, 0)\<rparr>"

text \<open>Engines between frames: with a double underscore cursor; with a glyph queued for the
  atlas origin; with a colored glyph queued under a configured ClearType mode.\<close>

definition double_underscore_engine :: "real engine" where
  "double_underscore_engine =
     warm_engine\<lparr>cursorOptions := \<lparr>cursorType = DoubleUnderscore, heightPercentage = 20\<rparr>\<rparr>"

definition glyph_at_origin_engine :: "real engine" where
  "glyph_at_origin_engine = warm_engine\<lparr>glyphQueue := [glyph_A {} (0, 0)]\<rparr>"

definition cleartype_engine :: "real engine" where
  "cleartype_engine =
     warm_engine
       \<lparr>glyphQueue := [glyph_A {ColoredGlyph} (8, 0)],
        d2dRenderTarget := Some D2D1_TEXT_ANTIALIAS_MODE_CLEARTYPE,
        realizedAntialiasingMode := D2D1_TEXT_ANTIALIAS_MODE_CLEARTYPE\<rparr>"

text \<open>
  An engine before its first frame under a configured aliased mode, with a colored glyph of
  one cell queued for the second tile of the atlas.
\<close>

definition aliased_engine :: "real engine" where
  "aliased_engine =
     fresh_engine
       \<lparr>maxEncounteredCellCount := 1, glyphQueue := [glyph_A {ColoredGlyph} (8, 0)],
        realizedAntialiasingMode := D2D1_TEXT_ANTIALIAS_MODE_ALIASED\<rparr>"

text \<open>
  Two frames with a change of the configured mode between them. The first frame runs under
  a configured ClearType mode with one uncolored glyph queued; it creates the scratchpad.
  Then the configured mode is set to grayscale and a colored glyph of one cell is queued,
  for which the scratchpad is wide enough.
\<close>

definition cleartype_first_frame :: "real engine" where
  "cleartype_first_frame =
     fresh_engine
       \<lparr>maxEncounteredCellCount := 1, glyphQueue := [glyph_A {} (8, 0)],
        realizedAntialiasingMode := D2D1_TEXT_ANTIALIAS_MODE_CLEARTYPE\<rparr>"

definition grayscale_second_frame :: "real engine" where
  "grayscale_second_frame =
     (snd (Present (real_platform all_succeed True) cleartype_first_frame))
       \<lparr>glyphQueue := [glyph_A {ColoredGlyph} (16, 0)],
        realizedAntialiasingMode := D2D1_TEXT_ANTIALIAS_MODE_GRAYSCALE\<rparr>"

text \<open>An engine between frames whose constant buffer is flagged for a rebuild.\<close>

definition stale_constants_engine :: "real engine" where
  "stale_constants_engine = warm_engine\<lparr>invalidations := {ConstBuffer}\<rparr>"

section \<open>Proof tools\<close>

lemmas step_defs = then_step_def emit_def THROW_IF_FAILED_def modify_def step_if_def noexcept_def
  on_target_def try_on_target_def setTextAntialiasMode_def drawTextLayout_def null_dereference_def

lemmas atlas_defs = limitX_def limitY_def posX_def posY_def cellX_def cellY_def perCellArea_def
  currentArea_def minArea_def newArea_max_def newArea_def pixelPerRow_def u32_sub_def
  wantedHeight_def wantedWidth_def atlasSize_wanted_def u32_def BitScanReverse_def shl1_u32_def

lemmas input_defs = real_platform_def all_succeed_def all_fail_def E_FAIL_def S_OK_def FAILED_def
  fresh_engine_def warm_engine_def glyph_A_def cold_9x18_def full_row_9x18_def
  double_underscore_engine_def glyph_at_origin_engine_def cleartype_engine_def aliased_engine_def
  stale_constants_engine_def

lemmas model_defs = Present_def Present_body_def adjustAtlasSize_def atlas_has_room_def
  reserveScratchpadSize_def newWidth_def processGlyphQueue_def drawGlyph_def copyGlyphTile_def
  copyScratchpadTile_def drawCursor_def updateConstantBuffer_def cursorRect_def lineWidth_def
  f_max_def USER_DEFAULT_SCREEN_DPI_def

subsection \<open>Sequencing\<close>

lemma valid_then_step:
  assumes "valid P f Q M" and "valid M g Q R"
  shows "valid P (then_step f g) Q R"
  unfolding valid_def
proof (intro allI impI)
  fix s assume P: "P s"
  obtain st s1 where f: "f s = (st, s1)" by (cases "f s")
  from assms(1) P f obtain evs1 where e1: "trace s1 = trace s @ evs1" "\<forall>e\<in>set evs1. Q e"
    and m: "st = Ok \<longrightarrow> M s1"
    by (auto simp: valid_def)
  show "(\<exists>evs. trace (snd (then_step f g s)) = trace s @ evs \<and> (\<forall>e\<in>set evs. Q e))
        \<and> (fst (then_step f g s) = Ok \<longrightarrow> R (snd (then_step f g s)))"
  proof (cases st)
    case Ok
    with m have "M s1" by simp
    with assms(2) obtain evs2 where e2: "trace (snd (g s1)) = trace s1 @ evs2" "\<forall>e\<in>set evs2. Q e"
      and r: "fst (g s1) = Ok \<longrightarrow> R (snd (g s1))"
      by (auto simp: valid_def)
    from Ok f have eq: "then_step f g s = g s1" by (simp add: then_step_def)
    from e1 e2 have "trace (snd (g s1)) = trace s @ (evs1 @ evs2) \<and> (\<forall>e\<in>set (evs1 @ evs2). Q e)"
      by auto
    with r eq show ?thesis by metis
  next
    case (Thrown hr) with f e1 show ?thesis by (auto simp: then_step_def)
  next
    case Terminated with f e1 show ?thesis by (auto simp: then_step_def)
  next
    case Undefined with f e1 show ?thesis by (auto simp: then_step_def)
  qed
qed

lemma steps_Cons_eq: "steps (f # fs) = then_step f (steps fs)"
  by (rule ext) simp

lemma steps_append: "steps (fs @ gs) = then_step (steps fs) (steps gs)"
proof (induction fs)
  case Nil
  show ?case by (rule ext) (simp add: then_step_def)
next
  case (Cons f fs)
  show ?case
    by (rule ext) (simp add: Cons then_step_def split: prod.splits status.splits)
qed

lemma valid_steps_Nil: "(\<And>s. P s \<Longrightarrow> R s) \<Longrightarrow> valid P (steps []) Q R"
  by (simp add: valid_def)

lemma valid_steps_Cons:
  "valid P f Q M \<Longrightarrow> valid M (steps fs) Q R \<Longrightarrow> valid P (steps (f # fs)) Q R"
  by (simp only: steps_Cons_eq valid_then_step)


lemma valid_steps_all:
  "(\<And>f. f \<in> set fs \<Longrightarrow> valid I f Q I) \<Longrightarrow> valid I (steps fs) Q I"
  by (induction fs) (auto intro: valid_steps_Nil valid_steps_Cons)


lemma valid_emit:
  "Q c \<Longrightarrow> (\<And>s. P s \<Longrightarrow> R (s\<lparr>trace := trace s @ [c]\<rparr>)) \<Longrightarrow> valid P (emit c) Q R"
  by (simp add: valid_def emit_def)

lemma valid_THROW_IF_FAILED:
  "Q c \<Longrightarrow> (\<And>s. P s \<Longrightarrow> R (s\<lparr>trace := trace s @ [c]\<rparr>)) \<Longrightarrow> valid P (THROW_IF_FAILED p c) Q R"
  by (simp add: valid_def THROW_IF_FAILED_def Let_def)

lemma valid_modify:
  "(\<And>s. trace (g s) = trace s) \<Longrightarrow> (\<And>s. P s \<Longrightarrow> R (g s)) \<Longrightarrow> valid P (modify g) Q R"
  by (simp add: valid_def modify_def)

lemma valid_step_if:
  "(b \<Longrightarrow> valid P f Q R) \<Longrightarrow> (\<And>s. \<not> b \<Longrightarrow> P s \<Longrightarrow> R s) \<Longrightarrow> valid P (step_if b f) Q R"
  by (simp add: valid_def step_if_def)

lemma valid_on_target:
  "Q c \<Longrightarrow> (\<And>s. P s \<Longrightarrow> R (s\<lparr>trace := trace s @ [c]\<rparr>)) \<Longrightarrow> valid P (on_target c) Q R"
  by (simp add: valid_def on_target_def emit_def split: option.splits)

lemma valid_try_on_target:
  "Q c \<Longrightarrow> (\<And>s. P s \<Longrightarrow> R (s\<lparr>trace := trace s @ [c]\<rparr>)) \<Longrightarrow> valid P (try_on_target p c) Q R"
  by (simp add: valid_def try_on_target_def THROW_IF_FAILED_def Let_def split: option.splits)

lemma valid_state:
  "(\<And>s0. P s0 \<Longrightarrow> valid (\<lambda>s. s = s0) (F s0) Q R) \<Longrightarrow> valid P (\<lambda>s. F s s) Q R"
  by (simp add: valid_def)


lemma valid_skip: "(\<And>s. P s \<Longrightarrow> R s) \<Longrightarrow> valid P (\<lambda>s. (Ok, s)) Q R"
  by (simp add: valid_def)

lemma valid_setTextAntialiasMode:
  "Q (SetTextAntialiasMode m) \<Longrightarrow>
   (\<And>s. P s \<Longrightarrow> R (s\<lparr>d2dRenderTarget := Some m, trace := trace s @ [SetTextAntialiasMode m]\<rparr>))
   \<Longrightarrow> valid P (setTextAntialiasMode m) Q R"
  by (simp add: valid_def setTextAntialiasMode_def emit_def split: option.splits)

lemma valid_drawTextLayout:
  "(\<And>s m. P s \<Longrightarrow> d2dRenderTarget s = Some m \<Longrightarrow>
      Q (DrawTextLayout m opts) \<and> R (s\<lparr>trace := trace s @ [DrawTextLayout m opts]\<rparr>))
   \<Longrightarrow> valid P (drawTextLayout opts) Q R"
  by (simp add: valid_def drawTextLayout_def emit_def split: option.splits)


lemma valid_copyScratchpadTile:
  assumes "trace_free I" and "\<And>c. tile_copy_call target fl c \<Longrightarrow> Q c"
  shows "valid I (copyScratchpadTile p i target fl) Q I"
proof -
  have tf: "\<And>s t. I (s\<lparr>trace := t\<rparr>) = I s" using assms(1) by (simp add: trace_free_def)
  have q1: "\<And>r. Q (BitmapLock r)" "Q GetStride" "Q GetDataPointer"
    by (rule assms(2), simp add: tile_copy_call_def)+
  have q2: "\<And>r b bk. Q (UpdateSubresource1 AtlasBuffer
       (D3D11_BOX (unat (fst target)) (unat (snd target)) 0 r b bk) fl)"
    by (rule assms(2)) (simp add: tile_copy_call_def)
  have q3: "\<And>box. Q (CopySubresourceRegion1 AtlasBuffer (unat (fst target)) (unat (snd target)) 0
       AtlasScratchpad box fl)"
    by (rule assms(2)) (simp add: tile_copy_call_def)
  show ?thesis
    unfolding valid_def copyScratchpadTile_def
    by (auto simp: step_defs Let_def tf q1 q2 q3)
qed

lemma valid_copyGlyphTile:
  assumes "trace_free I" and "\<And>c. i < length cs \<Longrightarrow> tile_copy_call (cs ! i) 0 c \<Longrightarrow> Q c"
  shows "valid I (copyGlyphTile p cs i) Q I"
proof (cases "i < length cs")
  case True
  then have "copyGlyphTile p cs i = copyScratchpadTile p i (cs ! i) 0"
    by (intro ext) (simp add: copyGlyphTile_def)
  with assms True show ?thesis by (simp add: valid_copyScratchpadTile)
next
  case False
  then have "copyGlyphTile p cs i = (\<lambda>s. (Undefined, s))"
    by (intro ext) (simp add: copyGlyphTile_def)
  then show ?thesis by (simp add: valid_def)
qed

lemma trace_free_True: "trace_free (\<lambda>s. True)"
  by (simp add: trace_free_def)

text \<open>What a glyph draw can record.\<close>

lemma valid_drawGlyph_calls:
  fixes p :: "'f platform"
  assumes d: "\<And>c :: 'f call. glyph_draw_call c \<Longrightarrow> Q c"
    and t: "\<And>xy c. xy \<in> set (coords (item_value item)) \<Longrightarrow> tile_copy_call xy 0 c \<Longrightarrow> Q c"
  shows "valid (\<lambda>s. True) (drawGlyph p item) Q (\<lambda>s. True)"
  unfolding valid_def [of _ "drawGlyph p item"]
proof (intro allI impI)
  fix s :: "'f engine"
  define L :: "'f step list" where "L =
     [THROW_IF_FAILED p
        (CreateTextLayout (chars (item_key item)) (charCount (item_key item))
           (bold (attributes (item_key item))) (italic (attributes (item_key item)))
           (f_mul p (f_of_int p (int (unat (cellCount (attributes (item_key item))))))
              (fst (cellSizeDIP s)))
           (snd (cellSizeDIP s))),
      step_if (typography s) (emit SetTypography),
      step_if (realizedAntialiasingMode s = D2D1_TEXT_ANTIALIAS_MODE_CLEARTYPE)
        (setTextAntialiasMode
           (if ColoredGlyph \<in> flags (item_value item) then D2D1_TEXT_ANTIALIAS_MODE_GRAYSCALE
            else D2D1_TEXT_ANTIALIAS_MODE_CLEARTYPE)),
      on_target BeginDraw,
      on_target Clear,
      drawTextLayout
        (if ColoredGlyph \<in> flags (item_value item) then D2D1_DRAW_TEXT_OPTIONS_ENABLE_COLOR_FONT
         else D2D1_DRAW_TEXT_OPTIONS_NONE),
      try_on_target p EndDraw]
     @ map (copyGlyphTile p (coords (item_value item)))
         [0..<unat (cellCount (attributes (item_key item)))]"
  have dg: "drawGlyph p item s = steps L s"
    by (simp add: drawGlyph_def Let_def L_def)
  have "valid (\<lambda>s. True) (steps L) Q (\<lambda>s. True)"
  proof (rule valid_steps_all)
    fix f assume "f \<in> set L"
    then consider c where "f = THROW_IF_FAILED p c" "glyph_draw_call c"
      | c where "f = step_if (typography s) (emit c)" "glyph_draw_call c"
      | m where "f = step_if (realizedAntialiasingMode s = D2D1_TEXT_ANTIALIAS_MODE_CLEARTYPE)
                        (setTextAntialiasMode m)"
      | c where "f = on_target c" "glyph_draw_call c"
      | opts where "f = drawTextLayout opts"
      | c where "f = try_on_target p c" "glyph_draw_call c"
      | i where "f = copyGlyphTile p (coords (item_value item)) i"
      by (auto simp: L_def)
    then show "valid (\<lambda>s. True) f Q (\<lambda>s. True)"
    proof cases
      case 1 then show ?thesis by (simp add: valid_THROW_IF_FAILED d)
    next
      case 2 then show ?thesis by (simp add: valid_step_if valid_emit d)
    next
      case 3 then show ?thesis by (simp add: valid_step_if valid_setTextAntialiasMode d)
    next
      case 4 then show ?thesis by (simp add: valid_on_target d)
    next
      case 5 then show ?thesis by (simp add: valid_drawTextLayout d)
    next
      case 6 then show ?thesis by (simp add: valid_try_on_target d)
    next
      case 7
      have "valid (\<lambda>s. True) (copyGlyphTile p (coords (item_value item)) i) Q (\<lambda>s. True)"
        by (rule valid_copyGlyphTile [OF trace_free_True]) (rule t, rule nth_mem)
      with 7 show ?thesis by simp
    qed
  qed
  then show "(\<exists>evs. trace (snd (drawGlyph p item s)) = trace s @ evs \<and> (\<forall>e\<in>set evs. Q e))
     \<and> (fst (drawGlyph p item s) = Ok \<longrightarrow> True)"
    by (simp add: valid_def dg)
qed

lemma valid_drawGlyphs_calls:
  fixes p :: "'f platform"
  assumes d: "\<And>c :: 'f call. glyph_draw_call c \<Longrightarrow> Q c"
    and t: "\<And>item xy c. item \<in> set items \<Longrightarrow> xy \<in> set (coords (item_value item))
              \<Longrightarrow> tile_copy_call xy 0 c \<Longrightarrow> Q c"
  shows "valid (\<lambda>s. True) (drawGlyphs p items) Q (\<lambda>s. True)"
  using t
proof (induction items)
  case Nil
  have "drawGlyphs p [] = (\<lambda>s. (Ok, s))" by (rule ext) simp
  then show ?case by (simp add: valid_skip)
next
  case (Cons item items)
  have e: "drawGlyphs p (item # items) = then_step (drawGlyph p item) (drawGlyphs p items)"
    by (rule ext) simp
  have 1: "valid (\<lambda>s. True) (drawGlyph p item) Q (\<lambda>s. True)"
    by (rule valid_drawGlyph_calls [OF d]) (auto intro: Cons.prems)
  have 2: "valid (\<lambda>s. True) (drawGlyphs p items) Q (\<lambda>s. True)"
    by (rule Cons.IH) (auto intro: Cons.prems)
  from 1 2 show ?case unfolding e by (rule valid_then_step)
qed

lemma processGlyphQueue_calls:
  fixes p :: "'f platform" and s :: "'f engine"
  assumes d: "\<And>c :: 'f call. glyph_draw_call c \<Longrightarrow> Q c"
    and t: "\<And>item xy c. item \<in> set (glyphQueue s) \<Longrightarrow> xy \<in> set (coords (item_value item))
              \<Longrightarrow> tile_copy_call xy 0 c \<Longrightarrow> Q c"
  shows "\<exists>evs. trace (snd (processGlyphQueue p s)) = trace s @ evs \<and> (\<forall>e\<in>set evs. Q e)"
proof (cases "glyphQueue s = []")
  case True
  then show ?thesis by (simp add: processGlyphQueue_def)
next
  case False
  have m: "valid (\<lambda>s. True) (modify (\<lambda>s'. s'\<lparr>glyphQueue := []\<rparr>)) Q (\<lambda>s. True)"
    by (rule valid_modify) simp_all
  have "valid (\<lambda>s. True) (steps [drawGlyphs p (glyphQueue s), modify (\<lambda>s'. s'\<lparr>glyphQueue := []\<rparr>)])
          Q (\<lambda>s. True)"
    by (intro valid_steps_Cons [OF valid_drawGlyphs_calls] valid_steps_Cons [OF m] valid_steps_Nil)
       (auto intro: d t)
  then obtain evs where
    "trace (snd (steps [drawGlyphs p (glyphQueue s), modify (\<lambda>s'. s'\<lparr>glyphQueue := []\<rparr>)] s))
       = trace s @ evs" "\<forall>e\<in>set evs. Q e"
    unfolding valid_def by blast
  with False show ?thesis
    by (simp add: processGlyphQueue_def)
qed


subsection \<open>Tile targets\<close>

lemma tile_targets_append [simp]: "tile_targets (xs @ ys) = tile_targets xs @ tile_targets ys"
  by (simp add: tile_targets_def)

lemma tile_targets_Nil [simp]: "tile_targets [] = []"
  by (simp add: tile_targets_def)

lemma tile_targets_Cons [simp]:
  "tile_targets (c # cs) =
     (case atlas_tile_target c of None \<Rightarrow> [] | Some xy \<Rightarrow> [xy]) @ tile_targets cs"
  by (simp add: tile_targets_def)







subsection \<open>Powers of two and unsigned arithmetic\<close>

lemma msb_index_bounds: "0 < n \<Longrightarrow> 2 ^ msb_index n \<le> n \<and> n < 2 * 2 ^ msb_index n"
proof (induction n rule: msb_index.induct)
  case (1 n)
  show ?case
  proof (cases "n \<le> 1")
    case True
    with "1.prems" have "n = 1" by simp
    then show ?thesis by (simp add: msb_index.simps)
  next
    case False
    then have "0 < n div 2" by simp
    with "1.IH" False have ih: "2 ^ msb_index (n div 2) \<le> n div 2"
      "n div 2 < 2 * 2 ^ msb_index (n div 2)" by simp_all
    from False have m: "msb_index n = Suc (msb_index (n div 2))"
      by (simp add: msb_index.simps)
    from ih show ?thesis unfolding m by simp linarith
  qed
qed

lemma powerOfTwoAbove_msb: "0 < n \<Longrightarrow> powerOfTwoAbove n = 2 ^ Suc (msb_index n)"
proof (induction n rule: msb_index.induct)
  case (1 n)
  show ?case
  proof (cases "n \<le> 1")
    case True
    with "1.prems" have "n = 1" by simp
    then show ?thesis by (simp add: msb_index.simps powerOfTwoAbove.simps)
  next
    case False
    then have "0 < n div 2" by simp
    with "1.IH" False have "powerOfTwoAbove (n div 2) = 2 ^ Suc (msb_index (n div 2))" by simp
    with False show ?thesis
      by (simp add: msb_index.simps [of n] powerOfTwoAbove.simps [of n])
  qed
qed

lemma powerOfTwoAbove_above: "n < powerOfTwoAbove n"
proof (cases "n = 0")
  case True then show ?thesis by (simp add: powerOfTwoAbove.simps)
next
  case False
  then show ?thesis using msb_index_bounds [of n] by (simp add: powerOfTwoAbove_msb)
qed

lemma powerOfTwoAbove_least: "n < 2 ^ k \<Longrightarrow> powerOfTwoAbove n \<le> 2 ^ k"
proof (cases "n = 0")
  case True then show ?thesis by (simp add: powerOfTwoAbove.simps)
next
  case False
  assume "n < 2 ^ k"
  with msb_index_bounds [of n] False have "(2::nat) ^ msb_index n < 2 ^ k" by linarith
  then have "msb_index n < k" by simp
  then have "Suc (msb_index n) \<le> k" by simp
  then have "(2::nat) ^ Suc (msb_index n) \<le> 2 ^ k" by (rule power_increasing) simp
  with False show ?thesis by (simp add: powerOfTwoAbove_msb)
qed

lemma roundUpToPowerOfTwo_pow: "\<exists>k. roundUpToPowerOfTwo n = 2 ^ k"
proof (induction n rule: roundUpToPowerOfTwo.induct)
  case (1 n)
  show ?case
  proof (cases "n \<le> 1")
    case True
    then have "roundUpToPowerOfTwo n = 2 ^ 0" by (simp add: roundUpToPowerOfTwo.simps)
    then show ?thesis by blast
  next
    case False
    with "1.IH" obtain k where "roundUpToPowerOfTwo ((n + 1) div 2) = 2 ^ k" by auto
    with False have "roundUpToPowerOfTwo n = 2 ^ Suc k"
      by (simp add: roundUpToPowerOfTwo.simps [of n])
    then show ?thesis by blast
  qed
qed

lemma roundUpToPowerOfTwo_ge: "n \<le> roundUpToPowerOfTwo n"
proof (induction n rule: roundUpToPowerOfTwo.induct)
  case (1 n)
  show ?case
  proof (cases "n \<le> 1")
    case True
    then show ?thesis by (simp add: roundUpToPowerOfTwo.simps)
  next
    case False
    with "1.IH" have "(n + 1) div 2 \<le> roundUpToPowerOfTwo ((n + 1) div 2)" by simp
    with False show ?thesis
      by (simp add: roundUpToPowerOfTwo.simps [of n])
  qed
qed

lemma roundUpToPowerOfTwo_least: "n \<le> 2 ^ k \<Longrightarrow> roundUpToPowerOfTwo n \<le> 2 ^ k"
proof (induction n arbitrary: k rule: roundUpToPowerOfTwo.induct)
  case (1 n)
  show ?case
  proof (cases "n \<le> 1")
    case True
    then show ?thesis by (simp add: roundUpToPowerOfTwo.simps)
  next
    case False
    with "1.prems" obtain j where k: "k = Suc j" by (cases k) auto
    with "1.prems" have "(n + 1) div 2 \<le> 2 ^ j" by simp
    with "1.IH" False have "roundUpToPowerOfTwo ((n + 1) div 2) \<le> 2 ^ j" by simp
    with False k show ?thesis
      by (simp add: roundUpToPowerOfTwo.simps [of n])
  qed
qed

lemma div_mult_add_less: "r < b \<Longrightarrow> (q * b + r) div b = (q::nat)"
  by simp

lemma ceil_div_eq: "0 < b \<Longrightarrow> ceil_div a b = (a + b - 1) div b"
proof -
  assume b: "0 < b"
  define q r where "q = a div b" and "r = a mod b"
  have a: "a = q * b + r" and r: "r < b" using b by (simp_all add: q_def r_def)
  show ?thesis
  proof (cases "r = 0")
    case True
    then have d: "b dvd a" by (simp add: r_def mod_eq_0_iff_dvd)
    from True a b have "a + b - 1 = q * b + (b - 1)" by simp
    moreover from b have "(q * b + (b - 1)) div b = q" by (intro div_mult_add_less) simp
    ultimately have "(a + b - 1) div b = q" by simp
    with d show ?thesis by (simp add: ceil_div_def q_def)
  next
    case False
    then have d: "\<not> b dvd a" by (simp add: r_def mod_eq_0_iff_dvd)
    from False a have "a + b - 1 = Suc q * b + (r - 1)" by simp
    moreover from r have "(Suc q * b + (r - 1)) div b = Suc q" by (intro div_mult_add_less) simp
    ultimately have "(a + b - 1) div b = Suc q" by simp
    with d show ?thesis by (simp add: ceil_div_def q_def)
  qed
qed

lemma ceil_div_pos: "0 < a \<Longrightarrow> 0 < b \<Longrightarrow> 0 < ceil_div a b"
  by (simp add: ceil_div_def div_greater_zero_iff dvd_imp_le)

lemma ceil_div_mult_less: "0 < b \<Longrightarrow> ceil_div a b * b < a + b"
proof -
  assume b: "0 < b"
  have "(a + b - 1) div b * b \<le> a + b - 1" by simp
  also from b have "\<dots> < a + b" by simp
  finally show ?thesis using b by (simp add: ceil_div_eq)
qed

lemma exp2_less: "(2::nat) ^ a < 2 ^ b \<Longrightarrow> a < b"
  by simp

lemma u32_id: "n < 2 ^ 32 \<Longrightarrow> u32 n = n"
  by (simp add: u32_def)

lemma u32_sub_id:
  assumes "b \<le> a" and "a < 2 ^ 32"
  shows "u32_sub a b = a - b"
proof -
  define m :: nat where "m = 2 ^ 32"
  from assms(1) have "a + m - b = m + (a - b)" by linarith
  then have "(a + m - b) mod m = (m + (a - b)) mod m" by (rule arg_cong)
  also have "\<dots> = (a - b) mod m" by (rule mod_add_self1)
  also from assms(2) have "\<dots> = a - b" by (simp add: m_def)
  finally show ?thesis by (simp add: u32_sub_def m_def)
qed

lemma unat_u16: "unat (w :: u16) < 2 ^ 16"
  by (rule order_less_le_trans [OF unsigned_less]) simp

lemma u16_bounds:
  fixes s :: "'f engine"
  shows "cellX s < 2 ^ 16" "cellY s < 2 ^ 16" "limitX s < 2 ^ 16" "limitY s < 2 ^ 16"
    "posX s < 2 ^ 16" "posY s < 2 ^ 16"
  unfolding cellX_def cellY_def limitX_def limitY_def posX_def posY_def
  by (rule unat_u16)+

lemma newArea_eq:
  fixes s :: "'f engine"
  assumes pos: "0 < area_needed s" and small: "area_needed s < 2 ^ 31"
  shows "newArea_max s = area_needed s"
    and "newArea s = Some (2 ^ Suc (msb_index (area_needed s)))"
proof -
  have c: "64 * (cellX s * cellY s) < 2 ^ 31" and a: "posY s * limitX s + posX s * cellY s < 2 ^ 31"
    using small by (simp_all add: area_needed_def)
  have "perCellArea s = cellX s * cellY s"
    using c by (simp add: perCellArea_def u32_id)
  then have m: "minArea s = 64 * (cellX s * cellY s)"
    using c by (simp add: minArea_def u32_id)
  have "currentArea s = posY s * limitX s + posX s * cellY s"
    using a by (simp add: currentArea_def u32_id)
  with m show mx: "newArea_max s = area_needed s"
    by (simp add: newArea_max_def area_needed_def)
  from msb_index_bounds [OF pos] small have "(2::nat) ^ msb_index (area_needed s) < 2 ^ 31"
    by linarith
  then have "msb_index (area_needed s) < 31" by (rule exp2_less)
  with pos mx show "newArea s = Some (2 ^ Suc (msb_index (area_needed s)))"
    by (simp add: newArea_def BitScanReverse_def shl1_u32_def)
qed

section \<open>The atlas\<close>

text \<open>
  C8. After every atlas growth the computed new area is a power of two and is at least
  \<open>max(64 * cellArea, currentArea)\<close>, where the current area is the pixels already consumed:
  the full rows plus the partial row at the fill cursor. The areas are taken within the
  range of the 32-bit arithmetic the computation is written in: the maximum is not zero
  (\<^verbatim>\<open>_BitScanReverse\<close> needs a set bit) and is below \<open>2 ^ 31\<close> (the shift is by less than 32).
\<close>

theorem newArea_power_of_two:
  fixes s :: "'f engine"
  assumes "0 < area_needed s" and "area_needed s < 2 ^ 31"
  shows "\<exists>k. newArea s = Some (2 ^ k) \<and> area_needed s \<le> 2 ^ k"
proof -
  from msb_index_bounds [OF assms(1)]
  have "area_needed s \<le> 2 ^ Suc (msb_index (area_needed s))" by simp
  with newArea_eq(2) [OF assms] show ?thesis by blast
qed

theorem newArea_power_of_two_witness:
  "0 < area_needed fresh_engine \<and> area_needed fresh_engine < 2 ^ 31
   \<and> (\<exists>k. newArea fresh_engine = Some (2 ^ k) \<and> area_needed fresh_engine \<le> 2 ^ k)"
proof -
  have a: "area_needed fresh_engine = 8192"
    by (simp add: area_needed_def atlas_defs input_defs)
  then have "0 < area_needed fresh_engine" "area_needed fresh_engine < 2 ^ 31" by simp_all
  with newArea_power_of_two [of fresh_engine] show ?thesis by simp
qed

text \<open>
  C2, as stated, fails: with 8 by 16 pixel cells and an empty atlas the maximum is 8192,
  itself a power of two. Rounding it up gives 8192 and a texture of 512 by 16; the code
  shifts one bit further, to 16384, and creates a texture of 1024 by 16.
\<close>

theorem atlas_size_not_rounded_up:
  "atlasSize_wanted fresh_engine = Some (1024, 16)
   \<and> stated_atlas_size roundUpToPowerOfTwo fresh_engine = (512, 16)"
  by (simp add: atlas_defs input_defs msb_index.simps stated_atlas_size_def area_needed_def
      roundUpToPowerOfTwo.simps ceil_div_def Let_def)

text \<open>
  C2, amended. Whenever the capacity check triggers a growth, the new texture size is
  computed from \<open>newArea\<close> = the least power of two strictly above
  \<open>max(64 * cellArea, currentArea)\<close> (a maximum that is itself a power of two is doubled):
  \<open>wantedHeight = ceil(newArea / (limitWidth * cellHeight)) * cellHeight\<close>; \<open>wantedWidth\<close> is
  \<open>limitWidth\<close> if that spans more than one row, else \<open>newArea / cellArea * cellWidth\<close>; both
  are clamped to the hardware limit. This holds for cells and a limit width that are not
  zero and for areas within the 32-bit arithmetic: the maximum and one row of pixels are
  below \<open>2 ^ 31\<close>.
\<close>

theorem atlas_size_formula:
  fixes s :: "'f engine"
  assumes cx: "0 < cellX s" and cy: "0 < cellY s" and lx: "0 < limitX s"
    and small: "area_needed s < 2 ^ 31" and row: "limitX s * cellY s < 2 ^ 31"
  shows "\<exists>w h. atlasSize_wanted s = Some (w, h)
               \<and> (unat w, unat h) = stated_atlas_size powerOfTwoAbove s"
proof -
  define A where "A = area_needed s"
  define N where "N = (2::nat) ^ Suc (msb_index A)"
  define R where "R = limitX s * cellY s"
  define C where "C = cellX s * cellY s"
  have Apos: "0 < A" using cx cy by (simp add: A_def area_needed_def less_max_iff_disj)
  have Asmall: "A < 2 ^ 31" using small by (simp add: A_def)
  have nA: "newArea s = Some N"
    using newArea_eq(2) [of s] Apos Asmall by (simp add: A_def N_def)
  have pA: "powerOfTwoAbove A = N" using Apos by (simp add: N_def powerOfTwoAbove_msb)
  have "(2::nat) ^ msb_index A < 2 ^ 31" using msb_index_bounds [OF Apos] Asmall by linarith
  then have "msb_index A < 31" by (rule exp2_less)
  then have "Suc (msb_index A) \<le> 31" by simp
  then have "(2::nat) ^ Suc (msb_index A) \<le> 2 ^ 31" by (rule power_increasing) simp
  then have Nle: "N \<le> 2 ^ 31" by (simp add: N_def)
  have Npos: "0 < N" by (simp add: N_def)
  have Rpos: "0 < R" using lx cy by (simp add: R_def)
  have Cpos: "0 < C" using cx cy by (simp add: C_def)
  have Cs: "C < 2 ^ 31" using small by (simp add: C_def area_needed_def)
  have ppr: "pixelPerRow s = R" using row by (simp add: pixelPerRow_def R_def u32_id)
  have pca: "perCellArea s = C" using Cs by (simp add: perCellArea_def C_def u32_id)
  have cyR: "cellY s \<le> R" using lx by (simp add: R_def)
  define rows where "rows = ceil_div N R"
  have rows_pos: "0 < rows" using Npos Rpos by (simp add: rows_def ceil_div_pos)
  have "rows * R < N + R" using Rpos by (simp add: rows_def ceil_div_mult_less)
  moreover have "rows * cellY s \<le> rows * R" using cyR by simp
  moreover have "N + R < 2 ^ 32" using Nle row by (simp add: R_def)
  ultimately have hs: "rows * cellY s < 2 ^ 32" by linarith
  have NR: "N + R < 2 ^ 32" using Nle row by (simp add: R_def)
  have "u32_sub (u32 (N + R)) 1 = N + R - 1"
    using NR Rpos by (simp add: u32_id u32_sub_id)
  then have wh: "wantedHeight s N = rows * cellY s"
    using hs Rpos by (simp add: wantedHeight_def ppr rows_def ceil_div_eq u32_id)
  have "N div C * cellX s \<le> N div C * C" using cy by (simp add: C_def)
  also have "\<dots> \<le> N" by simp
  finally have ws: "N div C * cellX s < 2 ^ 32" using Nle by simp
  have ne: "(rows * cellY s \<noteq> cellY s) = (cellY s < rows * cellY s)"
    using rows_pos cy by (cases rows) auto
  have "wantedWidth s N = (if rows * cellY s \<noteq> cellY s then limitX s else N div C * cellX s)"
    using ws by (simp only: wantedWidth_def wh pca u32_id)
  then have ww: "wantedWidth s N =
      (if cellY s < rows * cellY s then limitX s else N div C * cellX s)"
    by (simp only: ne)
  have aw: "atlasSize_wanted s =
      Some (word_of_nat (min (limitX s) (wantedWidth s N)),
            word_of_nat (min (limitY s) (wantedHeight s N)))"
    using Rpos Cpos by (simp add: atlasSize_wanted_def nA ppr pca)
  have st: "stated_atlas_size powerOfTwoAbove s =
      (min (limitX s) (wantedWidth s N), min (limitY s) (wantedHeight s N))"
    unfolding stated_atlas_size_def Let_def pA [unfolded A_def] wh ww rows_def R_def C_def ..
  have "min (limitX s) (wantedWidth s N) < 2 ^ 16" "min (limitY s) (wantedHeight s N) < 2 ^ 16"
    using u16_bounds(3,4) [of s] by simp_all
  then have "unat (word_of_nat (min (limitX s) (wantedWidth s N)) :: u16)
               = min (limitX s) (wantedWidth s N)"
    "unat (word_of_nat (min (limitY s) (wantedHeight s N)) :: u16)
               = min (limitY s) (wantedHeight s N)"
    by (simp_all add: unat_of_nat)
  with aw st show ?thesis by simp
qed

theorem atlas_size_formula_witness:
  "0 < cellX fresh_engine \<and> 0 < cellY fresh_engine \<and> 0 < limitX fresh_engine
   \<and> area_needed fresh_engine < 2 ^ 31 \<and> limitX fresh_engine * cellY fresh_engine < 2 ^ 31
   \<and> (\<exists>w h. atlasSize_wanted fresh_engine = Some (w, h)
         \<and> (unat w, unat h) = stated_atlas_size powerOfTwoAbove fresh_engine)"
proof -
  have h: "0 < cellX fresh_engine" "0 < cellY fresh_engine" "0 < limitX fresh_engine"
    "area_needed fresh_engine < 2 ^ 31" "limitX fresh_engine * cellY fresh_engine < 2 ^ 31"
    by (simp_all add: area_needed_def atlas_defs input_defs)
  from atlas_size_formula [OF h] h show ?thesis by blast
qed

text \<open>
  C7 does not hold of the code. With 9 by 18 pixel cells the first frame creates a texture
  of 909 by 18, one row of 101 tiles. When the fill cursor reaches the end of that row, the
  capacity check resizes, computes the same 909 by 18 again (16384 pixels hold 101 whole
  cells of 162 pixels, as before), and leaves the fill cursor on the edge of the new
  texture: the next check resizes once more.
\<close>

theorem capacity_check_resizes_again:
  "atlasSize_wanted cold_9x18 = Some (909, 18)
   \<and> \<not> atlas_has_room full_row_9x18
   \<and> adjustAtlasSize (real_platform all_succeed software) full_row_9x18 =
       (Ok, full_row_9x18\<lparr>trace :=
          [CreateTexture2D 909 18, CreateShaderResourceView,
           CopySubresourceRegion1 NewAtlasBuffer 0 0 0 AtlasBuffer (D3D11_BOX 0 0 0 909 18 1)
             D3D11_COPY_NO_OVERWRITE]\<rparr>)
   \<and> \<not> atlas_has_room (snd (adjustAtlasSize (real_platform all_succeed software) full_row_9x18))"
proof -
  have a: "adjustAtlasSize (real_platform all_succeed software) full_row_9x18 =
       (Ok, full_row_9x18\<lparr>trace :=
          [CreateTexture2D 909 18, CreateShaderResourceView,
           CopySubresourceRegion1 NewAtlasBuffer 0 0 0 AtlasBuffer (D3D11_BOX 0 0 0 909 18 1)
             D3D11_COPY_NO_OVERWRITE]\<rparr>)"
    by (simp add: adjustAtlasSize_def atlas_has_room_def step_defs D3D11_COPY_NO_OVERWRITE_def
        atlas_defs msb_index.simps input_defs)
  have b: "atlasSize_wanted cold_9x18 = Some (909, 18)"
    by (simp add: atlas_defs input_defs msb_index.simps)
  have c: "\<not> atlas_has_room full_row_9x18"
    by (simp add: atlas_has_room_def input_defs)
  have d: "\<not> atlas_has_room (full_row_9x18\<lparr>trace :=
          [CreateTexture2D 909 18, CreateShaderResourceView,
           CopySubresourceRegion1 NewAtlasBuffer 0 0 0 AtlasBuffer (D3D11_BOX 0 0 0 909 18 1)
             D3D11_COPY_NO_OVERWRITE]\<rparr>)"
    by (simp add: atlas_has_room_def input_defs)
  from a b c d show ?thesis by simp
qed

text \<open>
  C6. On every atlas growth where a previous texture existed (the recorded size is not zero
  by zero), the whole rectangle of the old texture, from the origin to its recorded width
  and height, is copied to the origin of the new texture, and the Cursor flag is left as it
  was; on a first allocation the copy is skipped and the Cursor flag is set.
\<close>

theorem growth_copies_or_invalidates:
  fixes p :: "'f platform" and s s' :: "'f engine"
  assumes "\<not> atlas_has_room s" and "adjustAtlasSize p s = (Ok, s')"
  shows "trace s' = trace s
           @ [CreateTexture2D (unat (fst (atlasSizeInPixel s'))) (unat (snd (atlasSizeInPixel s'))),
              CreateShaderResourceView]
           @ (if atlasSizeInPixel s \<noteq> (0, 0)
              then [CopySubresourceRegion1 NewAtlasBuffer 0 0 0 AtlasBuffer
                      (D3D11_BOX 0 0 0
                         (unat (fst (atlasSizeInPixel s))) (unat (snd (atlasSizeInPixel s))) 1)
                      D3D11_COPY_NO_OVERWRITE]
              else [])
         \<and> invalidations s' = (if atlasSizeInPixel s \<noteq> (0, 0) then invalidations s
                                else insert Cursor (invalidations s))"
  using assms
  by (auto simp: adjustAtlasSize_def step_defs Let_def split: option.splits if_splits prod.splits)

theorem growth_copies_or_invalidates_witness:
  "\<not> atlas_has_room fresh_engine
   \<and> adjustAtlasSize (real_platform all_succeed True) fresh_engine =
       (Ok, fresh_engine\<lparr>atlasSizeInPixel := (1024, 16), invalidations := {Cursor},
              trace := [CreateTexture2D 1024 16, CreateShaderResourceView]\<rparr>)
   \<and> \<not> atlas_has_room full_row_9x18
   \<and> adjustAtlasSize (real_platform all_succeed True) full_row_9x18 =
       (Ok, full_row_9x18\<lparr>trace :=
          [CreateTexture2D 909 18, CreateShaderResourceView,
           CopySubresourceRegion1 NewAtlasBuffer 0 0 0 AtlasBuffer (D3D11_BOX 0 0 0 909 18 1)
             D3D11_COPY_NO_OVERWRITE]\<rparr>)"
proof -
  have a: "\<not> atlas_has_room fresh_engine" "\<not> atlas_has_room full_row_9x18"
    by (simp_all add: atlas_has_room_def input_defs)
  have b: "adjustAtlasSize (real_platform all_succeed True) fresh_engine =
       (Ok, fresh_engine\<lparr>atlasSizeInPixel := (1024, 16), invalidations := {Cursor},
              trace := [CreateTexture2D 1024 16, CreateShaderResourceView]\<rparr>)"
    by (simp add: adjustAtlasSize_def atlas_has_room_def step_defs atlas_defs msb_index.simps
        input_defs)
  have c: "adjustAtlasSize (real_platform all_succeed True) full_row_9x18 =
       (Ok, full_row_9x18\<lparr>trace :=
          [CreateTexture2D 909 18, CreateShaderResourceView,
           CopySubresourceRegion1 NewAtlasBuffer 0 0 0 AtlasBuffer (D3D11_BOX 0 0 0 909 18 1)
             D3D11_COPY_NO_OVERWRITE]\<rparr>)"
    by (simp add: adjustAtlasSize_def atlas_has_room_def step_defs D3D11_COPY_NO_OVERWRITE_def
        atlas_defs msb_index.simps input_defs)
  note growth_copies_or_invalidates [OF a(1) b] growth_copies_or_invalidates [OF a(2) c]
  with a b c show ?thesis by simp
qed

section \<open>The scratchpad\<close>

lemma reserveScratchpadSize_frame:
  fixes p :: "'f platform" and s s' :: "'f engine"
  assumes "reserveScratchpadSize p m s = (st, s')"
  shows "(\<exists>evs. trace s' = trace s @ evs \<and> (\<forall>e\<in>set evs. scratchpad_setup_call e))
         \<and> cursorOptions s' = cursorOptions s \<and> cellSizeDIP s' = cellSizeDIP s
         \<and> dpi s' = dpi s \<and> cellSize s' = cellSize s
         \<and> realizedAntialiasingMode s' = realizedAntialiasingMode s
         \<and> glyphQueue s' = glyphQueue s"
  using assms
  by (auto simp: reserveScratchpadSize_def step_defs Let_def split: if_splits option.splits)


text \<open>
  What a reserve call does: nothing when the requested width is within the recorded one;
  otherwise, when it ends normally, it has created a surface of \<open>newWidth\<close> cells by one
  cell and a render target in the configured mode, and has recorded the widest glyph span
  met so far. The per-frame call, which requests that span, leaves it covered.
\<close>

lemma reserve_keeps:
  fixes p :: "'f platform" and s :: "'f engine"
  shows "minWidth \<le> scratchpadCellWidth s \<Longrightarrow> reserveScratchpadSize p minWidth s = (Ok, s)"
  by (simp add: reserveScratchpadSize_def)

lemma reserve_regrows:
  fixes p :: "'f platform" and s s' :: "'f engine"
  assumes "\<not> minWidth \<le> scratchpadCellWidth s" and "reserveScratchpadSize p minWidth s = (Ok, s')"
  shows "ATLAS_D2D_SOFTWARE_RENDERING p"
    and "trace s' = trace s
           @ [CreateBitmap (u32 (cellX s * newWidth s minWidth)) (cellY s),
              CreateWicBitmapRenderTarget, DWrite_GetRenderParams, SetAntialiasMode_ALIASED,
              SetTextAntialiasMode (realizedAntialiasingMode s), SetTextRenderingParams,
              CreateSolidColorBrush]"
    and "scratchpadCellWidth s' = maxEncounteredCellCount s"
    and "d2dRenderTarget s' = Some (realizedAntialiasingMode s)"
  using assms
  by (auto simp: reserveScratchpadSize_def step_defs Let_def split: if_splits option.splits)

lemma reserve_covers_widest_glyph:
  fixes p :: "'f platform" and s s' :: "'f engine"
  assumes "reserveScratchpadSize p (maxEncounteredCellCount s) s = (Ok, s')"
  shows "maxEncounteredCellCount s' \<le> scratchpadCellWidth s'"
  using assms
  by (auto simp: reserveScratchpadSize_def step_defs Let_def split: if_splits option.splits)

text \<open>
  C4 does not hold of the code. \<^verbatim>\<open>_drawCursor\<close> reserves one cell. On an engine that has
  met no glyph yet the recorded capacity is 0, so the surface is regrown, to
  \<open>max(2, 1, 0)\<close> = 2 cells by one cell; but the capacity that is recorded afterwards is
  \<^verbatim>\<open>_r.maxEncounteredCellCount\<close>, which is 0 and below the requested width.
\<close>

theorem reserve_for_cursor_records_no_capacity:
  "reserveScratchpadSize (real_platform all_succeed True) 1 fresh_engine =
     (Ok, fresh_engine\<lparr>d2dRenderTarget := Some D2D1_TEXT_ANTIALIAS_MODE_GRAYSCALE,
            invalidations := {ConstBuffer},
            trace := [CreateBitmap (8 * 2) 16, CreateWicBitmapRenderTarget, DWrite_GetRenderParams,
              SetAntialiasMode_ALIASED, SetTextAntialiasMode D2D1_TEXT_ANTIALIAS_MODE_GRAYSCALE,
              SetTextRenderingParams, CreateSolidColorBrush]\<rparr>)
   \<and> scratchpadCellWidth
        (snd (reserveScratchpadSize (real_platform all_succeed True) 1 fresh_engine)) = 0
   \<and> \<not> (1 :: u16) \<le> scratchpadCellWidth
        (snd (reserveScratchpadSize (real_platform all_succeed True) 1 fresh_engine))"
  by (simp add: reserveScratchpadSize_def step_defs newWidth_def cellX_def cellY_def u32_def
      input_defs)

section \<open>The glyph queue\<close>

subsection \<open>Antialiasing of colored glyphs\<close>








text \<open>
  Nor is ClearType excluded under another configured mode: there \<^verbatim>\<open>_drawGlyph\<close> leaves the
  render target as it finds it. After a frame under a configured ClearType mode, whose last
  glyph was uncolored, the render target is in ClearType; once the configured mode is
  grayscale, the next frame keeps the scratchpad and rasterizes its colored glyph in
  ClearType. The text draws of the two frames:
\<close>

theorem colored_glyph_drawn_cleartype:
  "fst (Present (real_platform all_succeed True) grayscale_second_frame) = Returned S_OK
   \<and> filter text_draw_call
        (trace (snd (Present (real_platform all_succeed True) grayscale_second_frame)))
       = [DrawTextLayout D2D1_TEXT_ANTIALIAS_MODE_CLEARTYPE D2D1_DRAW_TEXT_OPTIONS_NONE,
          DrawTextLayout D2D1_TEXT_ANTIALIAS_MODE_CLEARTYPE D2D1_DRAW_TEXT_OPTIONS_ENABLE_COLOR_FONT]"
  by (simp add: model_defs atlas_defs msb_index.simps step_defs input_defs
      cleartype_first_frame_def grayscale_second_frame_def)



subsection \<open>Tile copies\<close>

text \<open>
  C5 does not hold of the code. A queued glyph of one cell is drawn and its tile copied to
  the atlas, with \<^verbatim>\<open>CopySubresourceRegion1\<close> or, under software rendering, with
  \<^verbatim>\<open>UpdateSubresource1\<close>: in both the copy flags are 0, not \<^verbatim>\<open>D3D11_COPY_NO_OVERWRITE\<close>.
\<close>

theorem glyph_tiles_copied_without_hint:
  "drawGlyph (real_platform all_succeed False) (glyph_A {} (8, 0)) warm_engine =
     (Ok, warm_engine\<lparr>trace :=
        [CreateTextLayout [0x41] 1 False False 8 16, BeginDraw, Clear,
         DrawTextLayout D2D1_TEXT_ANTIALIAS_MODE_GRAYSCALE D2D1_DRAW_TEXT_OPTIONS_NONE, EndDraw,
         CopySubresourceRegion1 AtlasBuffer 8 0 0 AtlasScratchpad (D3D11_BOX 0 0 0 8 16 1) 0]\<rparr>)
   \<and> drawGlyph (real_platform all_succeed True) (glyph_A {} (8, 0)) warm_engine =
     (Ok, warm_engine\<lparr>trace :=
        [CreateTextLayout [0x41] 1 False False 8 16, BeginDraw, Clear,
         DrawTextLayout D2D1_TEXT_ANTIALIAS_MODE_GRAYSCALE D2D1_DRAW_TEXT_OPTIONS_NONE, EndDraw,
         BitmapLock (WICRect 0 0 8 16), GetStride, GetDataPointer,
         UpdateSubresource1 AtlasBuffer (D3D11_BOX 8 0 0 16 16 1) 0]\<rparr>)
   \<and> (0 :: nat) \<noteq> D3D11_COPY_NO_OVERWRITE"
  by (simp add: drawGlyph_def copyGlyphTile_def copyScratchpadTile_def step_defs cellX_def
      cellY_def u32_def input_defs D3D11_COPY_NO_OVERWRITE_def)

section \<open>The cursor\<close>

lemma lineWidth_trace [simp]: "lineWidth p (s\<lparr>trace := t\<rparr>) = lineWidth p s"
  by (simp add: lineWidth_def)

lemma cursorRect_trace [simp]: "cursorRect p (s\<lparr>trace := t\<rparr>) = cursorRect p s"
  by (simp add: cursorRect_def Let_def split: CursorType.split)

lemma cell_trace [simp]:
  "cellX (s\<lparr>trace := t\<rparr>) = cellX s" "cellY (s\<lparr>trace := t\<rparr>) = cellY s"
  by (simp_all add: cellX_def cellY_def)

text \<open>The calls of a cursor redraw after the scratchpad is reserved.\<close>

lemma drawCursor_Ok:
  fixes p :: "'f platform" and s s' :: "'f engine"
  assumes "drawCursor p s = (Ok, s')"
  shows "\<exists>s1. reserveScratchpadSize p 1 s = (Ok, s1)
     \<and> trace s' = trace s1 @ [BeginDraw, Clear]
         @ (if cursorType (cursorOptions s1) = EmptyBox
            then [DrawRectangle (cursorRect p s1) (lineWidth p s1)]
            else [FillRectangle (cursorRect p s1)])
         @ (if cursorType (cursorOptions s1) = DoubleUnderscore
            then [FillRectangle (raise_by_two p (cursorRect p s1))] else [])
         @ [EndDraw]
         @ (if ATLAS_D2D_SOFTWARE_RENDERING p
            then [BitmapLock (WICRect 0 0 (cellX s1) (cellY s1)), GetStride, GetDataPointer,
                  UpdateSubresource1 AtlasBuffer (D3D11_BOX 0 0 0 (cellX s1) (cellY s1) 1)
                    (copyFlags_default p)]
            else [CopySubresourceRegion1 AtlasBuffer 0 0 0 AtlasScratchpad
                    (D3D11_BOX 0 0 0 (u32 (cellX s1)) (cellY s1) 1) (copyFlags_default p)])"
proof -
  obtain st s1 where r: "reserveScratchpadSize p 1 s = (st, s1)"
    by (cases "reserveScratchpadSize p 1 s")
  with assms have st: "st = Ok"
    by (cases st) (simp_all add: drawCursor_def then_step_def)
  from assms r st show ?thesis
    by (auto simp: drawCursor_def copyScratchpadTile_def step_defs Let_def u32_def
        split: if_splits option.splits)
qed


lemma lineWidth_cong: "dpi s1 = dpi s \<Longrightarrow> lineWidth p s1 = lineWidth p s"
  by (simp add: lineWidth_def)

lemma cursorRect_cong:
  "cursorOptions s1 = cursorOptions s \<Longrightarrow> cellSizeDIP s1 = cellSizeDIP s \<Longrightarrow> dpi s1 = dpi s
   \<Longrightarrow> cursorRect p s1 = cursorRect p s"
  by (simp add: cursorRect_def lineWidth_def Let_def split: CursorType.split)

lemma setup_not_rectangle: "scratchpad_setup_call e \<Longrightarrow> \<not> rectangle_call e"
  by (cases e) simp_all

text \<open>
  C9. A cursor redraw that completes draws, by cursor style: VerticalBar, one filled
  rectangle with left = top = 0 and right edge = line width; EmptyBox, one stroked rectangle
  of stroke width = line width, inset by half the line width on all four sides; DoubleUnderscore,
  exactly two filled rectangles, the bottom bar of line-width height and the same bar with
  top and bottom raised by 2 units; Underscore, the bottom bar alone; Legacy, a bottom bar
  whose top is the cell height times (100 - height percentage) / 100; any other style, the
  full cell. All coordinates are in the render target's device-independent units.
\<close>

theorem cursor_geometry:
  fixes p :: "'f platform" and s :: "'f engine"
  assumes ok: "fst (drawCursor p s) = Ok"
  shows "filter rectangle_call (calls_of (drawCursor p) s) =
     (let w = fst (cellSizeDIP s); h = snd (cellSizeDIP s); lw = lineWidth p s;
          zero = f_of_int p 0; two = f_of_int p 2; half = f_div p lw two;
          bar = D2D1_RECT_F zero (f_sub p h lw) w h
      in case cursorType (cursorOptions s) of
           VerticalBar \<Rightarrow> [FillRectangle (D2D1_RECT_F zero zero lw h)]
         | EmptyBox \<Rightarrow>
             [DrawRectangle (D2D1_RECT_F half half (f_sub p w half) (f_sub p h half)) lw]
         | DoubleUnderscore \<Rightarrow>
             [FillRectangle bar,
              FillRectangle (D2D1_RECT_F zero (f_sub p (f_sub p h lw) two) w (f_sub p h two))]
         | Underscore \<Rightarrow> [FillRectangle bar]
         | Legacy \<Rightarrow>
             [FillRectangle
                (D2D1_RECT_F zero
                   (f_div p (f_mul p h (f_of_int p (100 - int (heightPercentage (cursorOptions s)))))
                      (f_of_int p 100))
                   w h)]
         | FullBox \<Rightarrow> [FillRectangle (D2D1_RECT_F zero zero w h)])"
proof -
  from ok obtain s' where assms: "drawCursor p s = (Ok, s')"
    by (cases "drawCursor p s") auto
  from drawCursor_Ok [OF assms] obtain s1 where
    r: "reserveScratchpadSize p 1 s = (Ok, s1)" and
    t: "trace s' = trace s1 @ [BeginDraw, Clear]
         @ (if cursorType (cursorOptions s1) = EmptyBox
            then [DrawRectangle (cursorRect p s1) (lineWidth p s1)]
            else [FillRectangle (cursorRect p s1)])
         @ (if cursorType (cursorOptions s1) = DoubleUnderscore
            then [FillRectangle (raise_by_two p (cursorRect p s1))] else [])
         @ [EndDraw]
         @ (if ATLAS_D2D_SOFTWARE_RENDERING p
            then [BitmapLock (WICRect 0 0 (cellX s1) (cellY s1)), GetStride, GetDataPointer,
                  UpdateSubresource1 AtlasBuffer (D3D11_BOX 0 0 0 (cellX s1) (cellY s1) 1)
                    (copyFlags_default p)]
            else [CopySubresourceRegion1 AtlasBuffer 0 0 0 AtlasScratchpad
                    (D3D11_BOX 0 0 0 (u32 (cellX s1)) (cellY s1) 1) (copyFlags_default p)])"
    by (elim exE conjE) (rule that)
  from reserveScratchpadSize_frame [OF r] obtain evs where
    e: "trace s1 = trace s @ evs" "\<forall>e\<in>set evs. scratchpad_setup_call e" and
    f: "cursorOptions s1 = cursorOptions s" "cellSizeDIP s1 = cellSizeDIP s" "dpi s1 = dpi s"
    by (elim exE conjE) (rule that)
  from e(2) have n: "filter rectangle_call evs = []"
    by (auto simp: filter_empty_conv setup_not_rectangle)
  have c: "cursorRect p s1 = cursorRect p s" "lineWidth p s1 = lineWidth p s"
    by (rule cursorRect_cong [OF f], rule lineWidth_cong [OF f(3)])
  have "calls_of (drawCursor p) s = drop (length (trace s)) (trace s')"
    by (simp add: calls_of_def assms)
  then have "filter rectangle_call (calls_of (drawCursor p) s) =
      (if cursorType (cursorOptions s) = EmptyBox
       then [DrawRectangle (cursorRect p s) (lineWidth p s)]
       else [FillRectangle (cursorRect p s)])
      @ (if cursorType (cursorOptions s) = DoubleUnderscore
         then [FillRectangle (raise_by_two p (cursorRect p s))] else [])"
    by (simp add: t e(1) n c f(1))
  then show ?thesis
    by (cases "cursorType (cursorOptions s)") (simp_all add: cursorRect_def Let_def)
qed


theorem cursor_geometry_witness:
  "fst (drawCursor (real_platform all_succeed False) double_underscore_engine) = Ok
   \<and> filter rectangle_call
         (calls_of (drawCursor (real_platform all_succeed False)) double_underscore_engine) =
       [FillRectangle (D2D1_RECT_F 0 15 8 16), FillRectangle (D2D1_RECT_F 0 13 8 14)]"
proof -
  have ok: "fst (drawCursor (real_platform all_succeed False) double_underscore_engine) = Ok"
    by (simp add: drawCursor_def reserveScratchpadSize_def copyScratchpadTile_def step_defs
        input_defs double_underscore_engine_def)
  from cursor_geometry [OF ok] ok show ?thesis
    by (simp add: Let_def lineWidth_def f_max_def USER_DEFAULT_SCREEN_DPI_def input_defs
        double_underscore_engine_def)
qed




section \<open>The frame\<close>

text \<open>
  A first frame in which every call succeeds, call by call: the atlas is created, the
  scratchpad is created, the queued glyph and the cursor are drawn and copied, the constant
  buffer and the cell buffer are uploaded, the draw is recorded, and the swap chain is
  presented last.
\<close>

lemma first_frame:
  "Present (real_platform all_succeed True) aliased_engine =
     (Returned S_OK,
      aliased_engine
        \<lparr>atlasSizeInPixel := (1024, 16), invalidations := {}, scratchpadCellWidth := 1,
         glyphQueue := [], d2dRenderTarget := Some D2D1_TEXT_ANTIALIAS_MODE_ALIASED,
         trace :=
           [CreateTexture2D 1024 16, CreateShaderResourceView,
            CreateBitmap 16 16, CreateWicBitmapRenderTarget, DWrite_GetRenderParams,
            SetAntialiasMode_ALIASED, SetTextAntialiasMode D2D1_TEXT_ANTIALIAS_MODE_ALIASED,
            SetTextRenderingParams, CreateSolidColorBrush,
            CreateTextLayout [0x41] 1 False False 8 16, BeginDraw, Clear,
            DrawTextLayout D2D1_TEXT_ANTIALIAS_MODE_ALIASED D2D1_DRAW_TEXT_OPTIONS_ENABLE_COLOR_FONT,
            EndDraw, BitmapLock (WICRect 0 0 8 16), GetStride, GetDataPointer,
            UpdateSubresource1 AtlasBuffer (D3D11_BOX 8 0 0 16 16 1) 0,
            BeginDraw, Clear, FillRectangle (D2D1_RECT_F 0 (64 / 5) 8 16), EndDraw,
            BitmapLock (WICRect 0 0 8 16), GetStride, GetDataPointer,
            UpdateSubresource1 AtlasBuffer (D3D11_BOX 0 0 0 8 16 1) 0,
            ConstantBufferMap, ConstantBufferUnmap, CellBufferMap, CellBufferUnmap,
            StateCall ''VSSetShader'', StateCall ''PSSetShader'',
            StateCall ''IASetVertexBuffers'', StateCall ''IASetIndexBuffer'',
            StateCall ''IASetPrimitiveTopology'', StateCall ''PSSetConstantBuffers'',
            StateCall ''PSSetShaderResources'', StateCall ''OMSetRenderTargets'', Draw 3 0,
            CommandAllocatorReset, CommandListReset, StateCall ''ResourceBarrier'',
            StateCall ''SetGraphicsRootSignature'', StateCall ''IASetVertexBuffers'',
            StateCall ''IASetIndexBuffer'', StateCall ''IASetPrimitiveTopology'',
            StateCall ''RSSetViewports'', StateCall ''OMSetRenderTargets'',
            DrawInstanced 3 1 0 0, StateCall ''ResourceBarrier'', CommandListClose,
            SwapChainPresent 1 0]\<rparr>)"
  by (simp add: model_defs atlas_defs msb_index.simps step_defs input_defs) auto

text \<open>
  C1 does not hold of the code. \<^verbatim>\<open>_updateConstantBuffer\<close> checks its \<^verbatim>\<open>Map\<close> call with
  \<^verbatim>\<open>THROW_IF_FAILED\<close> but is declared \<^verbatim>\<open>noexcept\<close>: in a frame that has to rebuild the constant
  buffer, a failure of that call does not reach the handler of \<^verbatim>\<open>Present\<close>; the process is
  terminated and no result is returned. The next checked call of the same frame, the
  \<^verbatim>\<open>Map\<close> of the cell buffer, does what the claim says: its failure is returned.
\<close>

theorem constant_buffer_failure_terminates:
  "Present (real_platform all_fail software) stale_constants_engine =
     (ProcessTerminated, stale_constants_engine\<lparr>trace := [ConstantBufferMap]\<rparr>)
   \<and> Present (real_platform all_fail software) warm_engine =
     (Returned E_FAIL, warm_engine\<lparr>trace := [CellBufferMap]\<rparr>)"
  by (simp add: model_defs step_defs input_defs)

subsection \<open>The swap chain is presented last\<close>

lemma not_present_adjust:
  fixes p :: "'f platform"
  shows "valid (\<lambda>s. True) (adjustAtlasSize p) (\<lambda>e. \<not> present_call e) (\<lambda>s. True)"
  unfolding valid_def
  by (auto simp: adjustAtlasSize_def step_defs Let_def split: option.splits prod.splits)

lemma setup_not_present: "scratchpad_setup_call e \<Longrightarrow> \<not> present_call e"
  by (cases e) simp_all

lemma not_present_reserve:
  fixes p :: "'f platform"
  shows "valid (\<lambda>s. True) (\<lambda>s. reserveScratchpadSize p (m s) s) (\<lambda>e. \<not> present_call e) (\<lambda>s. True)"
  unfolding valid_def
proof (intro allI impI conjI)
  fix s :: "'f engine"
  obtain st s' where r: "reserveScratchpadSize p (m s) s = (st, s')"
    by (cases "reserveScratchpadSize p (m s) s")
  from reserveScratchpadSize_frame [OF r] r
  show "\<exists>evs. trace (snd (reserveScratchpadSize p (m s) s)) = trace s @ evs
          \<and> (\<forall>e\<in>set evs. \<not> present_call e)"
    by (auto simp: setup_not_present)
qed simp

lemma not_present_update:
  fixes p :: "'f platform"
  shows "valid (\<lambda>s. True) (updateConstantBuffer p) (\<lambda>e. \<not> present_call e) (\<lambda>s. True)"
  unfolding valid_def
  by (auto simp: updateConstantBuffer_def step_defs Let_def)

lemma tile_copy_not_present: "tile_copy_call xy fl c \<Longrightarrow> \<not> present_call c"
  by (cases c) (simp_all add: tile_copy_call_def)

lemma glyph_draw_not_present: "glyph_draw_call c \<Longrightarrow> \<not> present_call c"
  by (cases c) simp_all

lemma not_present_cursor:
  fixes p :: "'f platform"
  shows "valid (\<lambda>s. True) (drawCursor p) (\<lambda>e. \<not> present_call e) (\<lambda>s. True)"
proof -
  have 1: "valid (\<lambda>s. True)
      (\<lambda>s. if cursorType (cursorOptions s) = EmptyBox
           then on_target (DrawRectangle (cursorRect p s) (lineWidth p s)) s
           else on_target (FillRectangle (cursorRect p s)) s)
      (\<lambda>e. \<not> present_call e) (\<lambda>s. True)"
    by (simp add: valid_def step_defs split: option.splits)
  have 2: "valid (\<lambda>s. True)
      (\<lambda>s. step_if (cursorType (cursorOptions s) = DoubleUnderscore)
            (on_target (FillRectangle (raise_by_two p (cursorRect p s)))) s)
      (\<lambda>e. \<not> present_call e) (\<lambda>s. True)"
    by (simp add: valid_def step_defs split: option.splits)
  show ?thesis
    unfolding drawCursor_def
    by (intro valid_steps_Cons [where M = "\<lambda>s. True"] valid_steps_Nil
          not_present_reserve [where m = "\<lambda>s. 1"] 1 2
          valid_on_target valid_try_on_target valid_copyScratchpadTile trace_free_True)
       (simp_all add: tile_copy_not_present)
qed

lemma not_present_queue:
  fixes p :: "'f platform"
  shows "valid (\<lambda>s. True) (processGlyphQueue p) (\<lambda>e. \<not> present_call e) (\<lambda>s. True)"
  unfolding valid_def
proof (intro allI impI conjI)
  fix s :: "'f engine"
  show "\<exists>evs. trace (snd (processGlyphQueue p s)) = trace s @ evs
          \<and> (\<forall>e\<in>set evs. \<not> present_call e)"
    by (rule processGlyphQueue_calls) (simp_all add: glyph_draw_not_present tile_copy_not_present)
qed simp

lemma valid_flagged:
  "valid (\<lambda>s. True) f Q (\<lambda>s. True) \<Longrightarrow> valid (\<lambda>s. True) (\<lambda>s. step_if (b s) f s) Q (\<lambda>s. True)"
  by (simp add: valid_def step_if_def)

lemma then_step_Nil: "then_step g (steps []) = g"
  by (rule ext) (simp add: then_step_def split: prod.splits status.splits)

lemma steps_last: "fs \<noteq> [] \<Longrightarrow> steps fs = then_step (steps (butlast fs)) (last fs)"
proof -
  assume "fs \<noteq> []"
  then have "fs = butlast fs @ [last fs]" by simp
  then have "steps fs = steps (butlast fs @ [last fs])" by simp
  also have "\<dots> = then_step (steps (butlast fs)) (steps [last fs])" by (rule steps_append)
  also have "steps [last fs] = last fs" by (simp add: steps_Cons_eq then_step_Nil)
  finally show ?thesis .
qed

text \<open>The steps of a frame before the swap chain is presented.\<close>

lemma Present_body_last:
  fixes p :: "'f platform"
  shows "\<exists>pipeline. Present_body p = then_step pipeline (THROW_IF_FAILED p (SwapChainPresent 1 0))
           \<and> valid (\<lambda>s. True) pipeline (\<lambda>e. \<not> present_call e) (\<lambda>s. True)"
proof -
  have m: "\<And>g. (\<And>s. trace (g s) = trace s) \<Longrightarrow>
      valid (\<lambda>s. True) (modify g) (\<lambda>e :: 'f call. \<not> present_call e) (\<lambda>s. True)"
    by (rule valid_modify) simp_all
  show ?thesis
    unfolding Present_body_def
    apply (subst steps_last, simp)
    apply (simp only: butlast.simps last.simps list.simps if_False if_True simp_thms)
    apply (rule exI, rule conjI, rule refl)
    apply (intro valid_steps_Cons [where M = "\<lambda>s. True"] valid_steps_Nil valid_flagged
          not_present_adjust not_present_reserve not_present_queue not_present_cursor
          not_present_update valid_emit valid_THROW_IF_FAILED m)
    apply simp_all
    done
qed


text \<open>
  In every frame the swap chain is presented at most once, by the last call, and only after
  every step before it has ended normally: either the body of \<^verbatim>\<open>Present\<close> stops early and
  records no present call, or its calls end with the one present call, and it returns
  \<^verbatim>\<open>S_OK\<close> unless that call itself fails.
\<close>

theorem present_only_after_pipeline:
  fixes p :: "'f platform" and s :: "'f engine"
  shows "(filter present_call (calls_of (Present p) s) = [] \<and> fst (Present_body p s) \<noteq> Ok)
       \<or> (\<exists>evs. calls_of (Present p) s = evs @ [SwapChainPresent 1 0]
             \<and> filter present_call evs = []
             \<and> fst (Present p s) =
                 (if FAILED (gpu_result p (length (trace s) + length evs))
                  then Returned (handleException p (gpu_result p (length (trace s) + length evs)))
                  else Returned S_OK))"
proof -
  from Present_body_last [of p] obtain pipeline where
    b: "Present_body p = then_step pipeline (THROW_IF_FAILED p (SwapChainPresent 1 0))" and
    v: "valid (\<lambda>s. True) pipeline (\<lambda>e. \<not> present_call e) (\<lambda>s. True)"
    by (elim exE conjE) (rule that)
  obtain st s1 where ps: "pipeline s = (st, s1)" by (cases "pipeline s")
  from v have "\<exists>evs. trace (snd (pipeline s)) = trace s @ evs \<and> (\<forall>e\<in>set evs. \<not> present_call e)"
    by (simp add: valid_def)
  with ps obtain evs where e: "trace s1 = trace s @ evs" "\<forall>e\<in>set evs. \<not> present_call e"
    by auto
  from e(2) have n: "filter present_call evs = []" by (simp add: filter_empty_conv)
  have c: "calls_of (Present p) s = calls_of (Present_body p) s"
    by (simp add: calls_of_def Present_def split: prod.splits status.splits)
  show ?thesis
  proof (cases "st = Ok")
    case True
    with b ps e(1) have
      "calls_of (Present_body p) s = evs @ [SwapChainPresent 1 0]"
      "fst (Present p s) =
         (if FAILED (gpu_result p (length (trace s) + length evs))
          then Returned (handleException p (gpu_result p (length (trace s) + length evs)))
          else Returned S_OK)"
      by (simp_all add: calls_of_def Present_def then_step_def THROW_IF_FAILED_def Let_def)
    with n c show ?thesis by simp
  next
    case False
    with b ps have "Present_body p s = (st, s1)"
      by (cases st) (simp_all add: then_step_def)
    with False e(1) n c show ?thesis by (simp add: calls_of_def)
  qed
qed

end
